theory Spec2Isabelle
  imports Complex_Main "HOL-Library.AList"
begin

section \<open>Python values\<close>

text \<open>
  The worker handles JSON-shaped Python values: the records returned by the remote
  service, the dictionaries it builds from them and the values it binds to SQL
  statements. A dictionary is an association list in insertion order. A \<open>float\<close> is a
  double: a finite one is carried as the rational number it is exactly, and the
  infinities and NaN are values of their own (the JSON parser of the runtime reads
  \<open>Infinity\<close>, \<open>NaN\<close> and numbers beyond the doubles as such). The two zeros are one
  value here. What an operation on floats rounds to is the business of the runtime,
  see the numbers below.
\<close>

datatype pyfloat = Finite rat | Infinity bool | NaN

datatype pyval =
    PNone
  | PBool bool
  | PInt int
  | PFloat pyfloat
  | PStr string
  | PList "pyval list"
  | PDict "(string \<times> pyval) list"

type_synonym pydict = "(string \<times> pyval) list"

text \<open>The exceptions the handlers of the worker can meet; all derive from \<open>Exception\<close>.\<close>

datatype py_error =
    KeyError string
  | TypeError
  | AttributeError
  | ValueError
  | OverflowError
  | GarthException
  | Exception string

text \<open>Python truthiness (\<open>bool(v)\<close>, as used by \<open>if v\<close>, \<open>not v\<close>, \<open>v or w\<close>).\<close>

fun truthy :: "pyval \<Rightarrow> bool" where
  "truthy PNone = False"
| "truthy (PBool b) = b"
| "truthy (PInt i) = (i \<noteq> 0)"
| "truthy (PFloat x) = (x \<noteq> Finite 0)"
| "truthy (PStr s) = (s \<noteq> [])"
| "truthy (PList xs) = (xs \<noteq> [])"
| "truthy (PDict d) = (d \<noteq> [])"

text \<open>Truthiness of an optional string (an environment variable, a header, a KV value).\<close>

fun truthy_str :: "string option \<Rightarrow> bool" where
  "truthy_str None = False"
| "truthy_str (Some s) = (s \<noteq> [])"

text \<open>\<open>a or b\<close>\<close>

definition py_or :: "pyval \<Rightarrow> pyval \<Rightarrow> pyval" where
  "py_or a b = (if truthy a then a else b)"

text \<open>\<open>d.get(k)\<close> and \<open>d.get(k, default)\<close> on a dictionary.\<close>

definition dict_get :: "pydict \<Rightarrow> string \<Rightarrow> pyval" where
  "dict_get d k = (case map_of d k of None \<Rightarrow> PNone | Some v \<Rightarrow> v)"

definition dict_get_default :: "pydict \<Rightarrow> string \<Rightarrow> pyval \<Rightarrow> pyval" where
  "dict_get_default d k dflt = (case map_of d k of None \<Rightarrow> dflt | Some v \<Rightarrow> v)"

text \<open>\<open>d[k]\<close> on a dictionary: a missing key raises \<open>KeyError\<close>.\<close>

definition dict_item :: "pydict \<Rightarrow> string \<Rightarrow> py_error + pyval" where
  "dict_item d k = (case map_of d k of None \<Rightarrow> Inl (KeyError k) | Some v \<Rightarrow> Inr v)"

text \<open>\<open>v[k]\<close> with a string key on any value: only a dictionary can be subscripted so.\<close>

fun py_item :: "pyval \<Rightarrow> string \<Rightarrow> py_error + pyval" where
  "py_item (PDict d) k = dict_item d k"
| "py_item _ k = Inl TypeError"

text \<open>\<open>v.get(k, default)\<close> on any value: only a dictionary has it.\<close>

fun py_get_default :: "pyval \<Rightarrow> string \<Rightarrow> pyval \<Rightarrow> py_error + pyval" where
  "py_get_default (PDict d) k dflt = Inr (dict_get_default d k dflt)"
| "py_get_default _ k dflt = Inl AttributeError"

text \<open>
  What \<open>for\<close>, a comprehension and \<open>list.extend\<close> iterate over: the elements of a list,
  the keys of a dictionary, the characters of a string; nothing else here is iterable.
\<close>

fun iter_values :: "pyval \<Rightarrow> py_error + pyval list" where
  "iter_values (PList xs) = Inr xs"
| "iter_values (PDict d) = Inr (map (\<lambda>p. PStr (fst p)) d)"
| "iter_values (PStr s) = Inr (map (\<lambda>c. PStr [c]) s)"
| "iter_values _ = Inl TypeError"

text \<open>\<open>s.endswith(suffix)\<close>\<close>

definition endswith :: "string \<Rightarrow> string \<Rightarrow> bool" where
  "endswith s suf = (length suf \<le> length s \<and> drop (length s - length suf) s = suf)"

section \<open>Environment, requests and the world the worker acts on\<close>

text \<open>SQL statements the worker prepares, by kind; each is run with a list of bound values.\<close>

datatype stmt = SelectId | InsertOrReplaceActivity | DeleteSets | InsertSet

text \<open>
  A \<open>datetime\<close> is naive or timezone-aware; comparing one of each raises \<open>TypeError\<close>.
\<close>

datatype datetime = Naive int | Aware int

fun dt_gt :: "datetime \<Rightarrow> datetime \<Rightarrow> py_error + bool" where
  "dt_gt (Naive a) (Naive b) = Inr (a > b)"
| "dt_gt (Aware a) (Aware b) = Inr (a > b)"
| "dt_gt _ _ = Inl TypeError"

text \<open>
  The environment of a run: the configured variables and the behaviour of the
  collaborators the worker calls (the garth client, the D1 database, the clock and
  \<open>datetime.fromisoformat\<close>). A call that raises is \<open>Inl\<close> of the exception.
  \<^item> \<open>resume_data blob\<close>: \<open>garth.resume_data(json.loads(blob))\<close>;
  \<^item> \<open>client_username blob\<close>: \<open>garth.client.username\<close> after resuming \<open>blob\<close>;
  \<^item> \<open>login u p\<close>: \<open>garth.login(u, p)\<close> followed by \<open>json.dumps(garth.dump())\<close>;
  \<^item> \<open>search start\<close>: the activity search with \<open>limit = PAGE_SIZE\<close> and that offset;
    the response is any JSON value (the code's annotations say \<open>List[Dict]\<close>, which
    nothing enforces);
  \<^item> \<open>exerciseSets id\<close>: the exercise-set lookup of an activity;
  \<^item> \<open>db_raises s args\<close>: whether running statement \<open>s\<close> with \<open>args\<close> raises;
  \<^item> \<open>now_iso n\<close>: \<open>datetime.now().isoformat()\<close> at the \<open>n\<close>-th reading of the clock;
  \<^item> \<open>fromisoformat s\<close>: \<open>datetime.fromisoformat(s)\<close>, which raises \<open>ValueError\<close> on a
    string it cannot parse;
  \<^item> \<open>nearest_float x\<close>: the double nearest to the number \<open>x\<close>, as the float arithmetic
    of the runtime rounds, for \<open>x\<close> within the range of the doubles;
  \<^item> \<open>float_sum xs\<close>: what \<open>sum\<close> accumulates from the terms \<open>xs\<close> (a running sum of
    doubles, compensated or not by the version of the runtime).
\<close>

record env =
  GARMIN_USERNAME :: "string option"
  GARMIN_PASSWORD :: "string option"
  GARMIN_WEBHOOK_SECRET :: "string option"
  RIDEWITHGPS_API_SECRET :: "string option"
  resume_data :: "string \<Rightarrow> py_error + unit"
  client_username :: "string \<Rightarrow> py_error + unit"
  login :: "string \<Rightarrow> string \<Rightarrow> py_error + string"
  search :: "nat \<Rightarrow> py_error + pyval"
  exerciseSets :: "pyval \<Rightarrow> py_error + pyval"
  db_raises :: "stmt \<Rightarrow> pyval list \<Rightarrow> bool"
  now_iso :: "nat \<Rightarrow> string"
  fromisoformat :: "string \<Rightarrow> py_error + datetime"
  nearest_float :: "rat \<Rightarrow> rat"
  float_sum :: "pyfloat list \<Rightarrow> pyfloat"

text \<open>What the worker does to the outside, in order.\<close>

datatype event =
    EvSearch nat
  | EvExerciseSets pyval
  | EvLogin
  | EvKvPut string string
  | EvDb stmt "pyval list"

text \<open>
  The state a run reads and writes: the key-value store (\<open>GARMIN_SYNC_KV\<close>), the two
  tables of the database (\<open>activities\<close> keyed by its primary key \<open>id\<close>, each row the 24
  bound values; \<open>exercise_sets\<close> a list of rows, each the \<open>activity_id\<close> and the 9 bound
  values), the number of clock readings so far and the trace of events.
  The key-value store follows its contract (\<open>get\<close> gives a string or nothing, \<open>put\<close>
  stores one): neither raises.
\<close>

record world =
  kv :: "string \<rightharpoonup> string"
  activities :: "pyval \<rightharpoonup> pyval list"
  exercise_sets :: "(pyval \<times> pyval list) list"
  ticks :: nat
  trace :: "event list"

definition emit :: "event \<Rightarrow> world \<Rightarrow> world" where
  "emit ev w = w\<lparr>trace := trace w @ [ev]\<rparr>"

text \<open>\<open>datetime.now().isoformat()\<close>: reads the clock, which then has moved on.\<close>

definition now :: "env \<Rightarrow> world \<Rightarrow> string \<times> world" where
  "now e w = (now_iso e (ticks w), w\<lparr>ticks := Suc (ticks w)\<rparr>)"

text \<open>\<open>await env.GARMIN_SYNC_KV.put(key, value)\<close>\<close>

definition kv_put :: "string \<Rightarrow> string \<Rightarrow> world \<Rightarrow> world" where
  "kv_put k v w = emit (EvKvPut k v) (w\<lparr>kv := (kv w)(k \<mapsto> v)\<rparr>)"

text \<open>A request; \<open>http_method\<close> is its \<open>method\<close>.\<close>

record request =
  url :: string
  http_method :: string
  headers :: "string \<rightharpoonup> string"

datatype body =
    Unauthorized
  | Accepted string
  | OK
  | Status string string
  | NotFound

record response =
  body :: body
  status :: nat

text \<open>The task a request handler detaches with \<open>asyncio.create_task\<close>.\<close>

datatype task = NoTask | SyncTask | RideWithGpsTask

section \<open>The request handler\<close>

definition verify_webhook_signature :: "string option \<Rightarrow> env \<Rightarrow> bool" where
  "verify_webhook_signature signature e =
     (let webhook_secret = GARMIN_WEBHOOK_SECRET e
      in signature = webhook_secret \<or> \<not> truthy_str webhook_secret)"

definition verify_ridewithgps_signature :: "string option \<Rightarrow> env \<Rightarrow> bool" where
  "verify_ridewithgps_signature signature e =
     (let api_secret = RIDEWITHGPS_API_SECRET e
      in truthy_str signature \<and> truthy_str api_secret)"

definition on_fetch :: "env \<Rightarrow> request \<Rightarrow> world \<Rightarrow> (response \<times> task) \<times> world" where
  "on_fetch e req w =
     (if endswith (url req) ''/sync'' \<and> http_method req = ''POST'' then
        (let signature = headers req ''X-Webhook-Signature'' in
         if \<not> verify_webhook_signature signature e
         then ((\<lparr>body = Unauthorized, status = 401\<rparr>, NoTask), w)
         else (let (t, w1) = now e w
               in ((\<lparr>body = Accepted t, status = 200\<rparr>, SyncTask), w1)))
      else if endswith (url req) ''/ridewithgps-webhook'' \<and> http_method req = ''POST'' then
        (let signature = headers req ''X-RideWithGPS-Signature'' in
         if \<not> verify_ridewithgps_signature signature e
         then ((\<lparr>body = Unauthorized, status = 401\<rparr>, NoTask), w)
         else ((\<lparr>body = OK, status = 200\<rparr>, RideWithGpsTask), w))
      else if endswith (url req) ''/health'' then
        ((\<lparr>body = OK, status = 200\<rparr>, NoTask), w)
      else if endswith (url req) ''/status'' then
        (let last_sync = kv w ''lastSyncTime'';
             (t, w1) = now e w
         in ((\<lparr>body = Status (if truthy_str last_sync then the last_sync else ''Never'') t,
               status = 200\<rparr>, NoTask), w1))
      else ((\<lparr>body = NotFound, status = 404\<rparr>, NoTask), w))"

section \<open>Session establishment\<close>

text \<open>
  \<open>authenticate_garmin\<close>. Missing credentials raise inside the outer \<open>try\<close>, whose
  handlers return \<open>False\<close>. A saved session is resumed when \<open>resume_data\<close> and the
  probe \<open>garth.client.username\<close> both succeed; a \<open>GarthException\<close> of the probe is
  passed over, any other exception of the three calls is caught by the handler of the
  resume block, and both continue with the fresh login. A failed login (or a failed
  dump of the session) is caught by the outer handlers: \<open>False\<close>, and nothing is saved.
\<close>

definition authenticate_garmin :: "env \<Rightarrow> world \<Rightarrow> bool \<times> world" where
  "authenticate_garmin e w =
     (let username = GARMIN_USERNAME e; password = GARMIN_PASSWORD e in
      if \<not> truthy_str username \<or> \<not> truthy_str password then (False, w)
      else
        (let saved_session = kv w ''garth_session'';
             resumed =
               (if truthy_str saved_session then
                  (case resume_data e (the saved_session) of
                     Inl err \<Rightarrow> False
                   | Inr _ \<Rightarrow>
                       (case client_username e (the saved_session) of
                          Inl err \<Rightarrow> False
                        | Inr _ \<Rightarrow> True))
                else False)
         in if resumed then (True, w)
            else
              (let w1 = emit EvLogin w in
               case login e (the username) (the password) of
                 Inl err \<Rightarrow> (False, w1)
               | Inr session_data \<Rightarrow> (True, kv_put ''garth_session'' session_data w1))))"
section \<open>Fetching activities\<close>

definition PAGE_SIZE :: nat where
  "PAGE_SIZE = 20"

text \<open>\<open>s.replace('Z', '+00:00')\<close>\<close>

definition replace_Z :: "string \<Rightarrow> string" where
  "replace_Z s = concat (map (\<lambda>c. if c = CHR ''Z'' then ''+00:00'' else [c]) s)"

text \<open>\<open>datetime.fromisoformat(s.replace('Z', '+00:00'))\<close>\<close>

definition parse_time :: "env \<Rightarrow> string \<Rightarrow> py_error + datetime" where
  "parse_time e s = fromisoformat e (replace_Z s)"

text \<open>
  The start time of a fetched element, as the filter reads it: \<open>activity['startTimeLocal']\<close>
  raises \<open>TypeError\<close> on anything but a dictionary and \<open>KeyError\<close> when the key is
  absent, and only a string has \<open>.replace\<close>.
\<close>

definition start_time :: "env \<Rightarrow> pyval \<Rightarrow> py_error + datetime" where
  "start_time e activity =
     (case py_item activity ''startTimeLocal'' of
        Inl err \<Rightarrow> Inl err
      | Inr (PStr s) \<Rightarrow> parse_time e s
      | Inr _ \<Rightarrow> Inl AttributeError)"

text \<open>
  The list comprehension that keeps the activities started after \<open>last_sync_date\<close>;
  the first element that raises ends it.
\<close>

fun newer_than :: "env \<Rightarrow> datetime \<Rightarrow> pyval list \<Rightarrow> py_error + pyval list" where
  "newer_than e last_sync_date [] = Inr []"
| "newer_than e last_sync_date (activity # rest) =
     (case start_time e activity of
        Inl err \<Rightarrow> Inl err
      | Inr t \<Rightarrow>
          (case dt_gt t last_sync_date of
             Inl err \<Rightarrow> Inl err
           | Inr keep \<Rightarrow>
               (case newer_than e last_sync_date rest of
                  Inl err \<Rightarrow> Inl err
                | Inr kept \<Rightarrow> Inr (if keep then activity # kept else kept))))"

text \<open>The filtering of one page: applied when a watermark is given and the sync is not initial.\<close>

definition filter_activities ::
  "env \<Rightarrow> string option \<Rightarrow> bool \<Rightarrow> pyval list \<Rightarrow> py_error + pyval list" where
  "filter_activities e last_sync_time is_initial_sync activities_response =
     (if truthy_str last_sync_time \<and> \<not> is_initial_sync then
        (case parse_time e (the last_sync_time) of
           Inl err \<Rightarrow> Inl err
         | Inr last_sync_date \<Rightarrow> newer_than e last_sync_date activities_response)
      else Inr activities_response)"

text \<open>
  The entries of a response, as the loop sees them. A response that is false (\<open>None\<close>,
  an empty container, 0) ends the loop as an empty one does. One that is true is asked
  for its \<open>len\<close>, which a number does not have (\<open>TypeError\<close>); of a list, a dictionary or a
  string the comprehension and \<open>extend\<close> take the elements, keys or characters, as many
  as \<open>len\<close> counts.
\<close>

definition response_entries :: "pyval \<Rightarrow> py_error + pyval list" where
  "response_entries activities_response =
     (if truthy activities_response then iter_values activities_response else Inr [])"

text \<open>
  The \<open>while\<close> loop of \<open>fetch_activities\<close>. Every exception inside the \<open>try\<close> (of the
  search call, of \<open>len\<close> or of the filter) ends the loop with what was accumulated
  before the page.
\<close>

function fetch_loop ::
  "env \<Rightarrow> string option \<Rightarrow> bool \<Rightarrow> nat \<Rightarrow> pyval list \<Rightarrow> nat \<Rightarrow> world \<Rightarrow> pyval list \<times> world" where
  "fetch_loop e last_sync_time is_initial_sync max_activities all_activities start w =
     (if length all_activities < max_activities then
        (case search e start of
           Inl err \<Rightarrow> (all_activities, emit (EvSearch start) w)
         | Inr activities_response \<Rightarrow>
        (case response_entries activities_response of
           Inl err \<Rightarrow> (all_activities, emit (EvSearch start) w)
         | Inr entries \<Rightarrow>
             if length entries = 0 then (all_activities, emit (EvSearch start) w)
             else
               (case filter_activities e last_sync_time is_initial_sync entries of
                  Inl err \<Rightarrow> (all_activities, emit (EvSearch start) w)
                | Inr filtered_activities \<Rightarrow>
                    if length filtered_activities < length entries
                    then (all_activities @ filtered_activities, emit (EvSearch start) w)
                    else if length entries < PAGE_SIZE
                    then (all_activities @ filtered_activities, emit (EvSearch start) w)
                    else fetch_loop e last_sync_time is_initial_sync max_activities
                           (all_activities @ filtered_activities) (start + PAGE_SIZE)
                           (emit (EvSearch start) w))))
      else (all_activities, w))"
  by pat_completeness auto
termination
  by (relation "measure (\<lambda>(e, l, i, m, all_activities, s, w). m - length all_activities)")
    (auto simp: neq_Nil_conv)

declare fetch_loop.simps [simp del]

definition fetch_activities ::
  "env \<Rightarrow> string option \<Rightarrow> bool \<Rightarrow> world \<Rightarrow> pyval list \<times> world" where
  "fetch_activities e last_sync_time is_initial_sync w =
     (let max_activities = (if is_initial_sync then 1500 else 100)
      in fetch_loop e last_sync_time is_initial_sync max_activities [] 0 w)"
section \<open>Python numbers\<close>

text \<open>
  A number is an \<open>int\<close> (a \<open>bool\<close> is one) or a \<open>float\<close>. Integers are exact. What the
  float arithmetic rounds a number to is a parameter of the environment,
  \<open>nearest_float\<close>, except where it is certain: an integer of magnitude at most \<open>2 ^ 53\<close>
  is a double, so it is its own nearest double. A number of magnitude
  \<open>2 ^ 1024 - 2 ^ 970\<close> or more is beyond the doubles: converting an \<open>int\<close> to a \<open>float\<close>,
  or dividing two of them, raises \<open>OverflowError\<close> there, and an operation on floats
  gives an infinity.
\<close>

fun num_of :: "pyval \<Rightarrow> (int + pyfloat) option" where
  "num_of (PInt i) = Some (Inl i)"
| "num_of (PBool b) = Some (Inl (if b then 1 else 0))"
| "num_of (PFloat x) = Some (Inr x)"
| "num_of _ = None"

definition small_int :: "rat \<Rightarrow> bool" where
  "small_int x = (x = of_int \<lfloor>x\<rfloor> \<and> \<bar>x\<bar> \<le> 2 ^ 53)"

definition float_overflow :: rat where
  "float_overflow = 2 ^ 1024 - 2 ^ 970"

text \<open>The double nearest to a number within the range of the doubles.\<close>

definition to_double :: "env \<Rightarrow> rat \<Rightarrow> rat" where
  "to_double e x = (if small_int x then x else nearest_float e x)"

text \<open>The result of an operation on floats whose exact value is \<open>x\<close>.\<close>

definition round_double :: "env \<Rightarrow> rat \<Rightarrow> pyfloat" where
  "round_double e x =
     (if \<bar>x\<bar> \<ge> float_overflow then Infinity (x > 0) else Finite (to_double e x))"

text \<open>
  The float of an integer and the quotient of two integers, of exact value \<open>x\<close>: they
  raise where the operations on floats give an infinity.
\<close>

definition float_of :: "env \<Rightarrow> rat \<Rightarrow> py_error + pyfloat" where
  "float_of e x =
     (if \<bar>x\<bar> \<ge> float_overflow then Inl OverflowError else Inr (Finite (to_double e x)))"

text \<open>An operand of an operation on floats: an \<open>int\<close> is converted first.\<close>

fun operand :: "env \<Rightarrow> int + pyfloat \<Rightarrow> py_error + pyfloat" where
  "operand e (Inl i) = float_of e (of_int i)"
| "operand e (Inr x) = Inr x"

text \<open>The product of two floats.\<close>

fun float_mul :: "env \<Rightarrow> pyfloat \<Rightarrow> pyfloat \<Rightarrow> pyfloat" where
  "float_mul e (Finite x) (Finite y) = round_double e (x * y)"
| "float_mul e (Finite x) (Infinity t) = (if x = 0 then NaN else Infinity ((x > 0) = t))"
| "float_mul e (Infinity s) (Finite y) = (if y = 0 then NaN else Infinity (s = (y > 0)))"
| "float_mul e (Infinity s) (Infinity t) = Infinity (s = t)"
| "float_mul e NaN y = NaN"
| "float_mul e x NaN = NaN"

text \<open>
  \<open>a * b\<close> on numbers: exact on two integers, else the product of the two floats. (A
  sequence times an integer is a sequence; the worker multiplies only what its sums
  have accepted as numbers, see \<open>process_exercise_set\<close>.)
\<close>

definition py_mul :: "env \<Rightarrow> pyval \<Rightarrow> pyval \<Rightarrow> py_error + pyval" where
  "py_mul e a b =
     (case (num_of a, num_of b) of
        (Some (Inl x), Some (Inl y)) \<Rightarrow> Inr (PInt (x * y))
      | (Some x, Some y) \<Rightarrow>
          (case operand e x of
             Inl err \<Rightarrow> Inl err
           | Inr x' \<Rightarrow>
               (case operand e y of
                  Inl err \<Rightarrow> Inl err
                | Inr y' \<Rightarrow> Inr (PFloat (float_mul e x' y'))))
      | _ \<Rightarrow> Inl TypeError)"

text \<open>
  \<open>n / 1000\<close> on a number: the true division of integers gives the double nearest to
  the quotient, that of a float divides the double.
\<close>

fun div_1000 :: "env \<Rightarrow> int + pyfloat \<Rightarrow> py_error + pyfloat" where
  "div_1000 e (Inl i) = float_of e (of_int i / 1000)"
| "div_1000 e (Inr (Finite r)) = Inr (Finite (to_double e (r / 1000)))"
| "div_1000 e (Inr (Infinity s)) = Inr (Infinity s)"
| "div_1000 e (Inr NaN) = Inr NaN"

text \<open>
  \<open>round(x, 2)\<close> on a float: the double nearest to the hundredth nearest to \<open>x\<close>, a tie
  between two hundredths going to the even one; an infinity and NaN round to
  themselves.
\<close>

definition round_hundredths :: "rat \<Rightarrow> rat" where
  "round_hundredths x =
     (let y = x * 100; f = \<lfloor>y\<rfloor>; d = y - of_int f
      in of_int (if d < 1 / 2 then f else if d > 1 / 2 then f + 1
                 else if even f then f else f + 1) / 100)"

fun py_round2 :: "env \<Rightarrow> pyfloat \<Rightarrow> pyfloat" where
  "py_round2 e (Finite x) = Finite (to_double e (round_hundredths x))"
| "py_round2 e (Infinity s) = Infinity s"
| "py_round2 e NaN = NaN"

text \<open>
  \<open>sum\<close>, from the integer 0. While every term is an integer the sum is exact. From the
  first float on it is a float accumulated from the terms so far, and what comes out
  is \<open>float_sum\<close> of them, a parameter of the environment, except where it is certain:
  terms that are 0 change no accumulation, and terms that are integers whose
  magnitudes add up to at most \<open>2 ^ 53\<close> are added exactly. A term that is no number
  raises \<open>TypeError\<close> when it is added, and an integer beyond the doubles raises
  \<open>OverflowError\<close> when it meets a float.
\<close>

datatype sum_state = SumInt int | SumFloat "pyfloat list"

definition sum_add :: "sum_state \<Rightarrow> pyval \<Rightarrow> py_error + sum_state" where
  "sum_add st v =
     (case num_of v of
        None \<Rightarrow> Inl TypeError
      | Some (Inl j) \<Rightarrow>
          (case st of
             SumInt i \<Rightarrow> Inr (SumInt (i + j))
           | SumFloat ts \<Rightarrow>
               if \<bar>of_int j\<bar> \<ge> float_overflow then Inl OverflowError
               else Inr (SumFloat (ts @ [Finite (of_int j)])))
      | Some (Inr x) \<Rightarrow>
          (case st of
             SumInt i \<Rightarrow>
               if \<bar>of_int i\<bar> \<ge> float_overflow then Inl OverflowError
               else Inr (SumFloat [Finite (of_int i), x])
           | SumFloat ts \<Rightarrow> Inr (SumFloat (ts @ [x]))))"

fun small_term :: "pyfloat \<Rightarrow> bool" where
  "small_term (Finite x) = small_int x"
| "small_term _ = False"

fun finite_value :: "pyfloat \<Rightarrow> rat" where
  "finite_value (Finite x) = x"
| "finite_value _ = 0"

definition float_total :: "env \<Rightarrow> pyfloat list \<Rightarrow> pyfloat" where
  "float_total e ts =
     (if list_all small_term ts \<and> sum_list (map (\<lambda>t. \<bar>finite_value t\<bar>) ts) \<le> 2 ^ 53
      then Finite (sum_list (map finite_value ts))
      else float_sum e (filter (\<lambda>t. t \<noteq> Finite 0) ts))"

fun sum_result :: "env \<Rightarrow> sum_state \<Rightarrow> pyval" where
  "sum_result e (SumInt i) = PInt i"
| "sum_result e (SumFloat ts) = PFloat (float_total e ts)"

text \<open>\<open>sum(f(s) for s in xs)\<close>, continued from the state \<open>st\<close>.\<close>

fun py_sum ::
  "env \<Rightarrow> ('a \<Rightarrow> py_error + pyval) \<Rightarrow> 'a list \<Rightarrow> sum_state \<Rightarrow> py_error + pyval" where
  "py_sum e f [] st = Inr (sum_result e st)"
| "py_sum e f (x # xs) st =
     (case f x of
        Inl err \<Rightarrow> Inl err
      | Inr v \<Rightarrow> (case sum_add st v of Inl err \<Rightarrow> Inl err | Inr st' \<Rightarrow> py_sum e f xs st'))"

section \<open>Processing an activity\<close>

text \<open>\<open>round(set_data['weight'] / 1000, 2) if set_data.get('weight') else None\<close>\<close>

definition convert_weight :: "env \<Rightarrow> pydict \<Rightarrow> py_error + pyval" where
  "convert_weight e set_data =
     (if truthy (dict_get set_data ''weight'') then
        (case num_of (dict_get set_data ''weight'') of
           None \<Rightarrow> Inl TypeError
         | Some n \<Rightarrow>
             (case div_1000 e n of
                Inl err \<Rightarrow> Inl err
              | Inr q \<Rightarrow> Inr (PFloat (py_round2 e q))))
      else Inr PNone)"

text \<open>A function applied along a list, stopping at the first exception.\<close>

fun map_err :: "('a \<Rightarrow> py_error + 'b) \<Rightarrow> 'a list \<Rightarrow> py_error + 'b list" where
  "map_err f [] = Inr []"
| "map_err f (x # xs) =
     (case f x of
        Inl err \<Rightarrow> Inl err
      | Inr y \<Rightarrow> (case map_err f xs of Inl err \<Rightarrow> Inl err | Inr ys \<Rightarrow> Inr (y # ys)))"

text \<open>The dictionary appended to \<open>sets\<close> for one raw set.\<close>

definition process_set_data :: "env \<Rightarrow> pyval \<Rightarrow> py_error + pyval" where
  "process_set_data e set_data =
     (case set_data of
        PDict d \<Rightarrow>
          (case convert_weight e d of
             Inl err \<Rightarrow> Inl err
           | Inr weight \<Rightarrow>
               Inr (PDict [(''reps'', dict_get_default d ''repetitionCount'' (PInt 0)),
                           (''weight'', weight),
                           (''duration'', dict_get d ''duration''),
                           (''restTime'', dict_get d ''restTime'')]))
      | _ \<Rightarrow> Inl AttributeError)"

text \<open>\<open>s.get('reps', 0)\<close> and \<open>s.get('reps', 0) * (s.get('weight', 0) or 0)\<close> of a processed set.\<close>

definition set_reps :: "pyval \<Rightarrow> py_error + pyval" where
  "set_reps s = py_get_default s ''reps'' (PInt 0)"

definition set_volume :: "env \<Rightarrow> pyval \<Rightarrow> py_error + pyval" where
  "set_volume e s =
     (case py_get_default s ''reps'' (PInt 0) of
        Inl err \<Rightarrow> Inl err
      | Inr reps \<Rightarrow>
          (case py_get_default s ''weight'' (PInt 0) of
             Inl err \<Rightarrow> Inl err
           | Inr weight \<Rightarrow> py_mul e reps (py_or weight (PInt 0))))"

text \<open>
  The body of the loop of \<open>process_exercise_sets\<close>: one exercise with its sets. The sum
  of the repetitions comes first and raises unless every \<open>reps\<close> is a number, so the
  products of the volume are products of numbers.
\<close>

definition process_exercise_set :: "env \<Rightarrow> pyval \<Rightarrow> py_error + pyval" where
  "process_exercise_set e exercise_set =
     (case exercise_set of
        PDict d \<Rightarrow>
          (case (case dict_get d ''sets'' of
                   PList raw_sets \<Rightarrow>
                     if raw_sets \<noteq> [] then map_err (process_set_data e) raw_sets else Inr []
                 | _ \<Rightarrow> Inr []) of
             Inl err \<Rightarrow> Inl err
           | Inr sets \<Rightarrow>
               (case py_sum e set_reps sets (SumInt 0) of
                  Inl err \<Rightarrow> Inl err
                | Inr total_reps \<Rightarrow>
                    (case py_sum e (set_volume e) sets (SumInt 0) of
                       Inl err \<Rightarrow> Inl err
                     | Inr total_volume \<Rightarrow>
                         Inr (PDict
                           [(''exerciseName'', dict_get_default d ''exerciseName'' (PStr [])),
                            (''category'', dict_get_default d ''category'' (PStr [])),
                            (''sets'', PList sets),
                            (''totalReps'', total_reps),
                            (''totalVolume'', total_volume)]))))
      | _ \<Rightarrow> Inl AttributeError)"

definition process_exercise_sets :: "env \<Rightarrow> pyval \<Rightarrow> py_error + pyval list" where
  "process_exercise_sets e exercise_sets_arg =
     (case iter_values exercise_sets_arg of
        Inl err \<Rightarrow> Inl err
      | Inr xs \<Rightarrow> map_err (process_exercise_set e) xs)"
text \<open>\<open>activity.get('activityType', {}).get('typeKey', default)\<close>\<close>

definition type_key :: "pydict \<Rightarrow> pyval \<Rightarrow> py_error + pyval" where
  "type_key activity dflt =
     py_get_default (dict_get_default activity ''activityType'' (PDict [])) ''typeKey'' dflt"

text \<open>
  \<open>process_activity_data\<close>. The dictionary literal reads \<open>activity['activityId']\<close> and the
  type key, which can raise, before it reads the clock twice.
\<close>

definition process_activity_data ::
  "env \<Rightarrow> pydict \<Rightarrow> world \<Rightarrow> (py_error + pydict) \<times> world" where
  "process_activity_data e activity w =
     (case dict_item activity ''activityId'' of
        Inl err \<Rightarrow> (Inl err, w)
      | Inr activity_id \<Rightarrow>
     (case type_key activity (PStr ''unknown'') of
        Inl err \<Rightarrow> (Inl err, w)
      | Inr ty \<Rightarrow>
     (let (created_at, w1) = now e w;
          (updated_at, w2) = now e w1;
          base_activity =
            [(''id'', activity_id),
             (''name'', dict_get_default activity ''activityName'' (PStr [])),
             (''type'', ty),
             (''startTime'', dict_get activity ''startTimeLocal''),
             (''duration'', dict_get activity ''duration''),
             (''movingTime'', dict_get activity ''movingDuration''),
             (''calories'', dict_get activity ''calories''),
             (''averageHR'', dict_get activity ''averageHR''),
             (''maxHR'', dict_get activity ''maxHR''),
             (''distance'', dict_get activity ''distance''),
             (''averageSpeed'', dict_get activity ''averageSpeed''),
             (''maxSpeed'', dict_get activity ''maxSpeed''),
             (''elevationGain'', dict_get activity ''elevationGain''),
             (''elevationLoss'', dict_get activity ''elevationLoss''),
             (''createdAt'', PStr created_at),
             (''updatedAt'', PStr updated_at)]
      in
     (case type_key activity PNone of
        Inl err \<Rightarrow> (Inl err, w2)
      | Inr strength_key \<Rightarrow>
     (case (if strength_key = PStr ''strength_training''
               \<and> truthy (dict_get activity ''fullExerciseSets'')
            then (case process_exercise_sets e (dict_get activity ''fullExerciseSets'') of
                    Inl err \<Rightarrow> Inl err
                  | Inr sets \<Rightarrow>
                      Inr (AList.update ''totalSets'' (dict_get activity ''totalSets'')
                            (AList.update ''totalReps'' (dict_get activity ''totalReps'')
                              (AList.update ''exerciseSets'' (PList sets) base_activity))))
            else Inr base_activity) of
        Inl err \<Rightarrow> (Inl err, w2)
      | Inr base_activity1 \<Rightarrow>
     (case type_key activity (PStr []) of
        Inl err \<Rightarrow> (Inl err, w2)
      | Inr activity_type \<Rightarrow>
          if activity_type \<in> set [PStr ''cycling'', PStr ''running'', PStr ''walking''] then
            (Inr (AList.update ''maxCadence''
                    (py_or (dict_get activity ''maxRunCadence'')
                           (dict_get activity ''maxBikeCadence''))
                 (AList.update ''averageCadence''
                    (py_or (dict_get activity ''avgRunCadence'')
                           (dict_get activity ''avgBikeCadence''))
                 (AList.update ''trainingStressScore'' (dict_get activity ''trainingStressScore'')
                 (AList.update ''normalizedPower'' (dict_get activity ''normalizedPower'')
                 (AList.update ''maxPower'' (dict_get activity ''maxPower'')
                 (AList.update ''averagePower'' (dict_get activity ''avgPower'')
                    base_activity1)))))), w2)
          else (Inr base_activity1, w2)))))))"

text \<open>
  \<open>fetch_activity_exercise_sets\<close>: every exception (of the call, or of \<open>.get\<close> on a
  response that is no dictionary) is caught and gives the empty list.
\<close>

definition fetch_activity_exercise_sets :: "env \<Rightarrow> pyval \<Rightarrow> world \<Rightarrow> pyval \<times> world" where
  "fetch_activity_exercise_sets e activity_id w =
     (let w1 = emit (EvExerciseSets activity_id) w in
      case exerciseSets e activity_id of
        Inl err \<Rightarrow> (PList [], w1)
      | Inr resp \<Rightarrow>
          if truthy resp then
            (case py_get_default resp ''exerciseSets'' (PList []) of
               Inl err \<Rightarrow> (PList [], w1)
             | Inr v \<Rightarrow> (v, w1))
          else (PList [], w1))"

section \<open>Storing an activity\<close>

text \<open>
  Running a prepared statement with its bound values: the statement is logged, and it
  raises when the database says so. Its effect on the tables is applied by the caller.
\<close>

definition run_stmt :: "env \<Rightarrow> stmt \<Rightarrow> pyval list \<Rightarrow> world \<Rightarrow> (py_error + unit) \<times> world" where
  "run_stmt e s args w =
     (let w1 = emit (EvDb s args) w
      in if db_raises e s args then (Inl (Exception ''database''), w1) else (Inr (), w1))"

text \<open>
  \<open>get_activity_by_id\<close>: the row with that id, or \<open>None\<close>; every exception is caught and
  gives \<open>None\<close>. Its caller only tests the result for truth, and a row is true.
\<close>

definition get_activity_by_id :: "env \<Rightarrow> pyval \<Rightarrow> world \<Rightarrow> pyval list option \<times> world" where
  "get_activity_by_id e activity_id w =
     (case run_stmt e SelectId [activity_id] w of
        (Inl err, w1) \<Rightarrow> (None, w1)
      | (Inr _, w1) \<Rightarrow> (activities w1 activity_id, w1))"

definition should_update_activity :: "pyval list \<Rightarrow> pydict \<Rightarrow> bool" where
  "should_update_activity existing new_activity = False"

text \<open>The keys \<open>store_activity\<close> subscripts for the 24 columns of an activity row, in order.\<close>

definition activity_columns :: "string list" where
  "activity_columns =
     [''id'', ''name'', ''type'', ''startTime'',
      ''duration'', ''movingTime'', ''calories'',
      ''averageHR'', ''maxHR'', ''distance'',
      ''averageSpeed'', ''maxSpeed'', ''elevationGain'',
      ''elevationLoss'', ''averagePower'', ''maxPower'',
      ''normalizedPower'', ''trainingStressScore'',
      ''averageCadence'', ''maxCadence'', ''totalReps'',
      ''totalSets'', ''createdAt'', ''updatedAt'']"

text \<open>
  The 9 values bound for one set, the \<open>i\<close>-th (from 0) of its exercise. The sets come
  out of \<open>process_exercise_sets\<close>, whose sums have raised unless every \<open>reps\<close> is a number,
  so the product is one of numbers.
\<close>

definition set_row :: "env \<Rightarrow> pyval \<Rightarrow> pyval \<Rightarrow> nat \<Rightarrow> pyval \<Rightarrow> py_error + pyval list" where
  "set_row e activity_id exercise i set_data =
     (case py_item exercise ''exerciseName'' of Inl err \<Rightarrow> Inl err | Inr exercise_name \<Rightarrow>
     (case py_item exercise ''category'' of Inl err \<Rightarrow> Inl err | Inr category \<Rightarrow>
     (case py_item set_data ''reps'' of Inl err \<Rightarrow> Inl err | Inr reps \<Rightarrow>
     (case py_item set_data ''weight'' of Inl err \<Rightarrow> Inl err | Inr weight \<Rightarrow>
     (case py_item set_data ''duration'' of Inl err \<Rightarrow> Inl err | Inr duration \<Rightarrow>
     (case py_item set_data ''restTime'' of Inl err \<Rightarrow> Inl err | Inr rest_time \<Rightarrow>
     (case py_mul e reps (py_or weight (PInt 0)) of Inl err \<Rightarrow> Inl err | Inr total_volume \<Rightarrow>
        Inr [activity_id, exercise_name, category, PInt (int i + 1), reps, weight,
             duration, rest_time, total_volume])))))))"

text \<open>The inner loop: \<open>for i, set_data in enumerate(exercise['sets'])\<close>, from index \<open>i\<close>.\<close>

fun insert_sets ::
  "env \<Rightarrow> pyval \<Rightarrow> pyval \<Rightarrow> nat \<Rightarrow> pyval list \<Rightarrow> world \<Rightarrow> (py_error + unit) \<times> world" where
  "insert_sets e activity_id exercise i [] w = (Inr (), w)"
| "insert_sets e activity_id exercise i (set_data # rest) w =
     (case set_row e activity_id exercise i set_data of
        Inl err \<Rightarrow> (Inl err, w)
      | Inr args \<Rightarrow>
          (case run_stmt e InsertSet args w of
             (Inl err, w1) \<Rightarrow> (Inl err, w1)
           | (Inr _, w1) \<Rightarrow>
               insert_sets e activity_id exercise (Suc i) rest
                 (w1\<lparr>exercise_sets := exercise_sets w1 @ [(activity_id, args)]\<rparr>)))"

text \<open>The outer loop: \<open>for exercise in activity['exerciseSets']\<close>.\<close>

fun insert_exercises ::
  "env \<Rightarrow> pyval \<Rightarrow> pyval list \<Rightarrow> world \<Rightarrow> (py_error + unit) \<times> world" where
  "insert_exercises e activity_id [] w = (Inr (), w)"
| "insert_exercises e activity_id (exercise # rest) w =
     (case py_item exercise ''sets'' of
        Inl err \<Rightarrow> (Inl err, w)
      | Inr sets \<Rightarrow>
          (case iter_values sets of
             Inl err \<Rightarrow> (Inl err, w)
           | Inr set_list \<Rightarrow>
               (case insert_sets e activity_id exercise 0 set_list w of
                  (Inl err, w1) \<Rightarrow> (Inl err, w1)
                | (Inr _, w1) \<Rightarrow> insert_exercises e activity_id rest w1)))"

text \<open>
  \<open>store_activity\<close>. The 24 subscripts are evaluated before the statement is run, so a
  missing key raises \<open>KeyError\<close> with nothing written; the handler re-raises.
\<close>

definition store_activity :: "env \<Rightarrow> pydict \<Rightarrow> world \<Rightarrow> (py_error + unit) \<times> world" where
  "store_activity e activity w =
     (case dict_item activity ''id'' of
        Inl err \<Rightarrow> (Inl err, w)
      | Inr activity_id \<Rightarrow>
     (case map_err (dict_item activity) activity_columns of
        Inl err \<Rightarrow> (Inl err, w)
      | Inr args \<Rightarrow>
     (case run_stmt e InsertOrReplaceActivity args w of
        (Inl err, w1) \<Rightarrow> (Inl err, w1)
      | (Inr _, w1) \<Rightarrow>
     (let w2 = w1\<lparr>activities := (activities w1)(activity_id \<mapsto> args)\<rparr> in
      if truthy (dict_get activity ''exerciseSets'') then
        (case run_stmt e DeleteSets [activity_id] w2 of
           (Inl err, w3) \<Rightarrow> (Inl err, w3)
         | (Inr _, w3) \<Rightarrow>
             (let w4 = w3\<lparr>exercise_sets :=
                          filter (\<lambda>row. fst row \<noteq> activity_id) (exercise_sets w3)\<rparr> in
              case iter_values (dict_get activity ''exerciseSets'') of
                Inl err \<Rightarrow> (Inl err, w4)
              | Inr exercises \<Rightarrow> insert_exercises e activity_id exercises w4))
      else (Inr (), w2)))))"
section \<open>The loop over the fetched activities\<close>

datatype outcome = Skipped | Stored | Failed py_error

text \<open>
  The statements of the \<open>try\<close> block of the loop of \<open>process_and_store_activities\<close>, for a
  fetched element that is a dictionary: \<open>Skipped\<close> is the \<open>continue\<close>, \<open>Stored\<close> the path
  that reaches \<open>processed_count += 1\<close>, \<open>Failed\<close> an exception, which the handler of the
  block catches.
\<close>

definition process_body :: "env \<Rightarrow> pydict \<Rightarrow> world \<Rightarrow> outcome \<times> world" where
  "process_body e activity w =
     (case dict_item activity ''activityId'' of
        Inl err \<Rightarrow> (Failed err, w)
      | Inr activity_id \<Rightarrow>
     (let (existing, w1) = get_activity_by_id e activity_id w in
      if existing \<noteq> None \<and> \<not> should_update_activity (the existing) activity then (Skipped, w1)
      else
     (case type_key activity PNone of
        Inl err \<Rightarrow> (Failed err, w1)
      | Inr ty \<Rightarrow>
     (let (activity1, w2) =
            (if ty = PStr ''strength_training'' then
               (let (sets, w') = fetch_activity_exercise_sets e activity_id w1
                in (AList.update ''fullExerciseSets'' sets activity, w'))
             else (activity, w1)) in
      case process_activity_data e activity1 w2 of
        (Inl err, w3) \<Rightarrow> (Failed err, w3)
      | (Inr processed_activity, w3) \<Rightarrow>
          (case store_activity e processed_activity w3 of
             (Inl err, w4) \<Rightarrow> (Failed err, w4)
           | (Inr _, w4) \<Rightarrow> (Stored, w4))))))"

text \<open>
  One pass of the loop. On an element that is no dictionary the first statement of the
  block, \<open>activity['activityId']\<close>, raises \<open>TypeError\<close>; the handler then evaluates
  \<open>activity.get('activityId')\<close> for its message, which raises \<open>AttributeError\<close>, and that
  exception leaves the loop and the function (\<open>Inl\<close>).
\<close>

fun process_one :: "env \<Rightarrow> pyval \<Rightarrow> world \<Rightarrow> (py_error + outcome) \<times> world" where
  "process_one e (PDict activity) w =
     (case process_body e activity w of (out, w1) \<Rightarrow> (Inr out, w1))"
| "process_one e _ w = (Inl AttributeError, w)"

fun process_loop ::
  "env \<Rightarrow> pyval list \<Rightarrow> nat \<Rightarrow> world \<Rightarrow> (py_error + nat) \<times> world" where
  "process_loop e [] processed_count w = (Inr processed_count, w)"
| "process_loop e (activity # rest) processed_count w =
     (case process_one e activity w of
        (Inl err, w1) \<Rightarrow> (Inl err, w1)
      | (Inr Stored, w1) \<Rightarrow> process_loop e rest (processed_count + 1) w1
      | (Inr _, w1) \<Rightarrow> process_loop e rest processed_count w1)"

definition process_and_store_activities ::
  "env \<Rightarrow> pyval list \<Rightarrow> world \<Rightarrow> (py_error + nat) \<times> world" where
  "process_and_store_activities e activity_list w = process_loop e activity_list 0 w"

section \<open>The sync run\<close>

text \<open>The dictionary a run returns; \<open>error\<close> is the exception whose text it carries.\<close>

record sync_result =
  success :: bool
  activitiesProcessed :: "nat option"
  isInitialSync :: "bool option"
  error :: "py_error option"
  timestamp :: string

text \<open>
  \<open>sync_garmin_data\<close>. A failed authentication raises; so does an exception that leaves
  \<open>process_and_store_activities\<close>. The handler of the function returns the failure
  dictionary, and the statements after the raise, the write of the watermark among
  them, are not run.
\<close>

definition sync_garmin_data :: "env \<Rightarrow> world \<Rightarrow> sync_result \<times> world" where
  "sync_garmin_data e w =
     (let (authenticated, w1) = authenticate_garmin e w in
      if \<not> authenticated then
        (let (t, w2) = now e w1
         in (\<lparr>success = False, activitiesProcessed = None, isInitialSync = None,
              error = Some (Exception ''Failed to authenticate with Garmin''),
              timestamp = t\<rparr>, w2))
      else
        (let last_sync_time = kv w1 ''lastSyncTime'';
             is_initial_sync = (\<not> truthy_str last_sync_time);
             (activity_list, w2) = fetch_activities e last_sync_time is_initial_sync w1
         in case process_and_store_activities e activity_list w2 of
              (Inl err, w3) \<Rightarrow>
                (let (t, w4) = now e w3
                 in (\<lparr>success = False, activitiesProcessed = None, isInitialSync = None,
                      error = Some err, timestamp = t\<rparr>, w4))
            | (Inr processed_count, w3) \<Rightarrow>
                (let (t, w4) = now e w3;
                     w5 = kv_put ''lastSyncTime'' t w4;
                     (t', w6) = now e w5
                 in (\<lparr>success = True, activitiesProcessed = Some processed_count,
                      isInitialSync = Some is_initial_sync, error = None,
                      timestamp = t'\<rparr>, w6))))"

text \<open>\<open>on_scheduled\<close>\<close>

definition on_scheduled :: "env \<Rightarrow> world \<Rightarrow> sync_result \<times> world" where
  "on_scheduled e w = sync_garmin_data e w"

section \<open>Notions used to state the properties\<close>


text \<open>A fetched element that is a dictionary.\<close>

fun is_dict :: "pyval \<Rightarrow> bool" where
  "is_dict (PDict d) = True"
| "is_dict _ = False"

text \<open>
  The lookups by id among the events of a world, and the lookups that a pass over a
  list of fetched elements makes when it reaches every one of them: one for each
  element that has an \<open>activityId\<close>, in order.
\<close>

fun is_lookup :: "event \<Rightarrow> bool" where
  "is_lookup (EvDb SelectId args) = True"
| "is_lookup _ = False"

definition lookups :: "pyval list \<Rightarrow> event list" where
  "lookups xs =
     concat (map (\<lambda>a. case py_item a ''activityId'' of
                          Inr i \<Rightarrow> [EvDb SelectId [i]]
                        | Inl err \<Rightarrow> []) xs)"

text \<open>The writes to the key-value store among the events of a world, in order.\<close>

fun is_kv_put :: "event \<Rightarrow> bool" where
  "is_kv_put (EvKvPut k v) = True"
| "is_kv_put _ = False"

definition kv_puts :: "world \<Rightarrow> event list" where
  "kv_puts w = filter is_kv_put (trace w)"

text \<open>The writes of the session blob and of the watermark among the events of a world.\<close>

fun is_session_put :: "event \<Rightarrow> bool" where
  "is_session_put (EvKvPut k v) = (k = ''garth_session'')"
| "is_session_put _ = False"


definition session_puts :: "world \<Rightarrow> event list" where
  "session_puts w = filter is_session_put (trace w)"


text \<open>A saved session is there and both \<open>resume_data\<close> and the probe succeed on it.\<close>

definition session_resumes :: "env \<Rightarrow> world \<Rightarrow> bool" where
  "session_resumes e w =
     (case kv w ''garth_session'' of
        None \<Rightarrow> False
      | Some blob \<Rightarrow> blob \<noteq> [] \<and> \<not> isl (resume_data e blob) \<and> \<not> isl (client_username e blob))"

text \<open>
  The stages of a run of \<open>sync_garmin_data\<close> that authenticates: the activities fetched
  (with the world after the fetch), and the count and world after the loop over them.
\<close>

definition fetched :: "env \<Rightarrow> world \<Rightarrow> pyval list \<times> world" where
  "fetched e w =
     (let w1 = snd (authenticate_garmin e w); last_sync_time = kv w1 ''lastSyncTime''
      in fetch_activities e last_sync_time (\<not> truthy_str last_sync_time) w1)"

definition after_loop :: "env \<Rightarrow> world \<Rightarrow> (py_error + nat) \<times> world" where
  "after_loop e w = process_and_store_activities e (fst (fetched e w)) (snd (fetched e w))"

text \<open>
  An activity that the filter of an incremental fetch keeps: its start time parses, so
  does the watermark, and the comparison says it started strictly later.
\<close>

definition started_after :: "env \<Rightarrow> string \<Rightarrow> pyval \<Rightarrow> bool" where
  "started_after e last_sync_time activity =
     (case (start_time e activity, parse_time e last_sync_time) of
        (Inr t, Inr last_sync_date) \<Rightarrow> dt_gt t last_sync_date = Inr True
      | _ \<Rightarrow> False)"

text \<open>
  The page at an offset (the entries of the response; none when the request or \<open>len\<close>
  raises), and whether the filter drops an activity from it.
\<close>

definition page_at :: "env \<Rightarrow> nat \<Rightarrow> pyval list" where
  "page_at e start =
     (case search e start of
        Inl err \<Rightarrow> []
      | Inr activities_response \<Rightarrow>
          (case response_entries activities_response of
             Inl err \<Rightarrow> []
           | Inr entries \<Rightarrow> entries))"

definition drops :: "env \<Rightarrow> string option \<Rightarrow> bool \<Rightarrow> nat \<Rightarrow> bool" where
  "drops e last_sync_time is_initial_sync start =
     (case filter_activities e last_sync_time is_initial_sync (page_at e start) of
        Inr kept \<Rightarrow> length kept < length (page_at e start)
      | Inl err \<Rightarrow> False)"

text \<open>A request for a page from which the filter drops nothing.\<close>

fun keeps_all :: "env \<Rightarrow> string option \<Rightarrow> bool \<Rightarrow> event \<Rightarrow> bool" where
  "keeps_all e last_sync_time is_initial_sync (EvSearch start) =
     (\<not> drops e last_sync_time is_initial_sync start)"
| "keeps_all e last_sync_time is_initial_sync _ = False"

text \<open>The events a step adds to the trace of the world \<open>w\<close> it started from.\<close>

definition added :: "world \<Rightarrow> world \<Rightarrow> event list" where
  "added w w' = drop (length (trace w)) (trace w')"

section \<open>Concrete inputs\<close>

text \<open>
  Inputs on which the properties below are evaluated: an environment whose
  collaborators all answer, a world with empty stores, and a \<open>POST /sync\<close> request.
  The numbers of these inputs are integers of small magnitude, and so are their
  quotients, products and sums, so the two parameters of the float arithmetic are
  never consulted; they are given here as exact.
\<close>

definition quiet_env :: env where
  "quiet_env =
     \<lparr>GARMIN_USERNAME = Some ''user'', GARMIN_PASSWORD = Some ''pw'',
      GARMIN_WEBHOOK_SECRET = None, RIDEWITHGPS_API_SECRET = None,
      resume_data = (\<lambda>blob. Inr ()), client_username = (\<lambda>blob. Inr ()),
      login = (\<lambda>u p. Inr ''session''), search = (\<lambda>start. Inr (PList [])),
      exerciseSets = (\<lambda>i. Inr PNone), db_raises = (\<lambda>s args. False),
      now_iso = (\<lambda>n. replicate (Suc n) CHR ''I''),
      fromisoformat = (\<lambda>s. Inl ValueError),
      nearest_float = (\<lambda>x. x), float_sum = (\<lambda>ts. Finite (sum_list (map finite_value ts)))\<rparr>"

definition empty_world :: world where
  "empty_world =
     \<lparr>kv = Map.empty, activities = Map.empty, exercise_sets = [], ticks = 0, trace = []\<rparr>"

definition sync_request :: "string option \<Rightarrow> request" where
  "sync_request sig =
     \<lparr>url = ''https://worker.example/sync'', http_method = ''POST'',
      headers = (\<lambda>h. if h = ''X-Webhook-Signature'' then sig else None)\<rparr>"

text \<open>Two raw sets: 5 repetitions of 10000 grams, and 3 repetitions with weight 0.\<close>

definition raw_set_10kg :: pydict where
  "raw_set_10kg = [(''repetitionCount'', PInt 5), (''weight'', PInt 10000)]"

definition raw_set_no_weight :: pydict where
  "raw_set_no_weight = [(''repetitionCount'', PInt 3), (''weight'', PInt 0)]"


text \<open>A clock whose \<open>n\<close>-th reading is \<open>n\<close> seconds after noon.\<close>

definition clock_iso :: "nat \<Rightarrow> string" where
  "clock_iso n =
     ''2024-06-01T12:00:'' @ [''0123456789'' ! (n div 10 mod 10), ''0123456789'' ! (n mod 10)]"

text \<open>
  The end-to-end scenario: no watermark, and the remote service holds three activities,
  a strength training (whose exercise sets it details) and two runs.
\<close>

definition strength_activity :: pydict where
  "strength_activity =
     [(''activityId'', PInt 101),
      (''activityName'', PStr ''Strength''),
      (''activityType'', PDict [(''typeKey'', PStr ''strength_training'')]),
      (''startTimeLocal'', PStr ''2024-05-30 18:00:00''),
      (''duration'', PFloat (Finite 3600)),
      (''totalReps'', PInt 8),
      (''totalSets'', PInt 2)]"

definition run_activity :: "int \<Rightarrow> pydict" where
  "run_activity i =
     [(''activityId'', PInt i),
      (''activityName'', PStr ''Morning Run''),
      (''activityType'', PDict [(''typeKey'', PStr ''running'')]),
      (''startTimeLocal'', PStr ''2024-05-29 07:00:00''),
      (''duration'', PFloat (Finite 1800)),
      (''distance'', PFloat (Finite 5000)),
      (''avgRunCadence'', PInt 170)]"

definition scenario_env :: env where
  "scenario_env =
     quiet_env
       \<lparr>search := (\<lambda>start. if start = 0
                    then Inr (PList [PDict strength_activity, PDict (run_activity 102),
                                     PDict (run_activity 103)])
                    else Inr (PList [])),
        exerciseSets := (\<lambda>i. if i = PInt 101
                    then Inr (PDict [(''exerciseSets'',
                           PList [PDict [(''exerciseName'', PStr ''Bench Press''),
                                  (''sets'', PList [PDict raw_set_10kg, PDict raw_set_no_weight])]])])
                    else Inr PNone),
        now_iso := clock_iso\<rparr>"

text \<open>
  A processed activity that has every key \<open>store_activity\<close> subscripts, the world after
  it was stored into the empty tables, and an environment whose lookups by id fail.
\<close>

definition canonical_run :: pydict where
  "canonical_run =
     [(''id'', PInt 102), (''name'', PStr ''Evening Run''), (''type'', PStr ''running''),
      (''startTime'', PStr ''2024-05-20 19:00:00''), (''duration'', PFloat (Finite 1500)),
      (''movingTime'', PFloat (Finite 1490)), (''calories'', PInt 300),
      (''averageHR'', PInt 150), (''maxHR'', PInt 175), (''distance'', PFloat (Finite 4000)),
      (''averageSpeed'', PFloat (Finite 3)), (''maxSpeed'', PFloat (Finite 4)),
      (''elevationGain'', PFloat (Finite 20)), (''elevationLoss'', PFloat (Finite 18)),
      (''averagePower'', PNone), (''maxPower'', PNone), (''normalizedPower'', PNone),
      (''trainingStressScore'', PNone), (''averageCadence'', PInt 168),
      (''maxCadence'', PInt 180), (''totalReps'', PNone), (''totalSets'', PNone),
      (''createdAt'', PStr ''2024-05-20T20:00:00''),
      (''updatedAt'', PStr ''2024-05-20T20:00:00'')]"

definition stored_world :: world where
  "stored_world = snd (store_activity quiet_env canonical_run empty_world)"

definition lookup_fails_env :: env where
  "lookup_fails_env = quiet_env\<lparr>db_raises := (\<lambda>s args. s = SelectId)\<rparr>"

text \<open>The values \<open>store_activity\<close> binds for \<open>canonical_run\<close>, whose keys are in column order.\<close>

definition canonical_row :: "pyval list" where
  "canonical_row = map snd canonical_run"

text \<open>
  A world that holds a watermark (midnight of 30 May), and an environment without a
  password.
\<close>

definition synced_world :: world where
  "synced_world = empty_world\<lparr>kv := [''lastSyncTime'' \<mapsto> ''2024-05-30T00:00:00'']\<rparr>"


text \<open>
  A world that holds a saved session, and an environment in which resuming it fails
  (\<open>resume_data\<close> raises) while a fresh login succeeds.
\<close>

definition stale_session_world :: world where
  "stale_session_world = empty_world\<lparr>kv := [''garth_session'' \<mapsto> ''stale'']\<rparr>"

definition resume_fails_env :: env where
  "resume_fails_env = quiet_env\<lparr>resume_data := (\<lambda>blob. Inl ValueError)\<rparr>"

text \<open>
  An incremental fetch: with the watermark at midnight of 30 May, the first page holds
  the strength training (started that evening) and a run of the day before.
\<close>

definition example_fromisoformat :: "string \<Rightarrow> py_error + datetime" where
  "example_fromisoformat s =
     (case map_of [(''2024-05-29 07:00:00'', Naive 2907),
                   (''2024-05-30T00:00:00'', Naive 3000),
                   (''2024-05-30 18:00:00'', Naive 3018)] s of
        None \<Rightarrow> Inl ValueError
      | Some d \<Rightarrow> Inr d)"

definition incremental_env :: env where
  "incremental_env =
     quiet_env
       \<lparr>search := (\<lambda>start. if start = 0
                    then Inr (PList [PDict strength_activity, PDict (run_activity 102)])
                    else Inr (PList [PDict (run_activity 103)])),
        fromisoformat := example_fromisoformat\<rparr>"

text \<open>
  A remote service that never runs out: every page is full, with 20 runs that all
  started after the watermark.
\<close>

definition late_run :: "int \<Rightarrow> pydict" where
  "late_run i =
     [(''activityId'', PInt i),
      (''activityName'', PStr ''Evening Run''),
      (''activityType'', PDict [(''typeKey'', PStr ''running'')]),
      (''startTimeLocal'', PStr ''2024-05-30 18:00:00'')]"

definition full_pages_env :: env where
  "full_pages_env =
     incremental_env
       \<lparr>search := (\<lambda>start. Inr (PList (map (\<lambda>k. PDict (late_run (int (start + k))))
                                       [0..<20])))\<rparr>"


definition oversized_env :: env where
  "oversized_env =
     incremental_env\<lparr>search := (\<lambda>start. Inr (PList (replicate 1501 (PDict (late_run 7)))))\<rparr>"

section \<open>Exercise sets: weights and volumes\<close>

lemma float_overflow_large: "2 ^ 53 < float_overflow"
proof -
  have "(2::rat) ^ 1024 - 2 ^ 970 = 2 ^ 970 * (2 ^ 54 - 1)"
    by (simp add: algebra_simps flip: power_add)
  moreover have "(2::rat) ^ 53 * 1 < 2 ^ 970 * (2 ^ 54 - 1)"
    by (intro mult_strict_mono) simp_all
  ultimately show ?thesis by (simp add: float_overflow_def)
qed

lemma float_of_small: "\<bar>x\<bar> \<le> 2 ^ 53 \<Longrightarrow> float_of e x = Inr (Finite (to_double e x))"
  using float_overflow_large by (simp add: float_of_def)

lemma to_double_int:
  assumes "\<bar>k\<bar> \<le> 2 ^ 53"
  shows "to_double e (of_int k) = of_int k"
proof -
  from assms have "\<bar>of_int k :: rat\<bar> \<le> 2 ^ 53"
    by (metis of_int_abs of_int_le_iff of_int_numeral of_int_power)
  then show ?thesis by (simp add: to_double_def small_int_def)
qed

lemma round_hundredths_int: "round_hundredths (of_int k) = of_int k"
  by (simp add: round_hundredths_def Let_def)

text \<open>A weight of whole kilograms is converted exactly.\<close>

lemma convert_weight_kilograms:
  assumes "map_of d ''weight'' = Some (PInt (1000 * k))" and "k \<noteq> 0" and "\<bar>k\<bar> \<le> 2 ^ 53"
  shows "convert_weight e d = Inr (PFloat (Finite (of_int k)))"
proof -
  have q: "(of_int (1000 * k) :: rat) / 1000 = of_int k"
    by simp
  from assms(3) have "\<bar>of_int k :: rat\<bar> \<le> 2 ^ 53"
    by (metis of_int_abs of_int_le_iff of_int_numeral of_int_power)
  then have "float_of e (of_int k) = Inr (Finite (of_int k))"
    by (simp add: float_of_small to_double_int [OF assms(3)])
  with assms(1,2) show ?thesis
    by (simp add: convert_weight_def dict_get_def q round_hundredths_int
        to_double_int [OF assms(3)] del: of_int_mult)
qed









lemma set_volume_null_weight:
  "set_volume e (PDict [(''reps'', PInt n), (''weight'', PNone), (''duration'', du),
      (''restTime'', rt)]) = Inr (PInt 0)"
  by (simp add: set_volume_def dict_get_default_def py_or_def py_mul_def)

text \<open>
  An exercise with the two sets of the examples, processed: the integers involved are
  small, so nothing depends on how the runtime rounds.
\<close>

lemma bench_press_sets:
  "process_set_data e (PDict raw_set_10kg) =
     Inr (PDict [(''reps'', PInt 5), (''weight'', PFloat (Finite 10)),
                 (''duration'', PNone), (''restTime'', PNone)])"
  "process_set_data e (PDict raw_set_no_weight) =
     Inr (PDict [(''reps'', PInt 3), (''weight'', PNone),
                 (''duration'', PNone), (''restTime'', PNone)])"
proof -
  have "map_of raw_set_10kg ''weight'' = Some (PInt (1000 * 10))"
    by (simp add: raw_set_10kg_def)
  then have "convert_weight e raw_set_10kg = Inr (PFloat (Finite (of_int 10)))"
    by (rule convert_weight_kilograms) simp_all
  then show "process_set_data e (PDict raw_set_10kg) =
     Inr (PDict [(''reps'', PInt 5), (''weight'', PFloat (Finite 10)),
                 (''duration'', PNone), (''restTime'', PNone)])"
    by (simp add: process_set_data_def) (simp add: raw_set_10kg_def dict_get_def dict_get_default_def)
  show "process_set_data e (PDict raw_set_no_weight) =
     Inr (PDict [(''reps'', PInt 3), (''weight'', PNone),
                 (''duration'', PNone), (''restTime'', PNone)])"
    by (simp add: process_set_data_def convert_weight_def raw_set_no_weight_def dict_get_def
        dict_get_default_def)
qed

lemma bench_press_volume:
  "set_volume e (PDict [(''reps'', PInt 5), (''weight'', PFloat (Finite 10)),
      (''duration'', PNone), (''restTime'', PNone)]) = Inr (PFloat (Finite 50))"
proof -
  have "\<not> float_overflow \<le> 5" "\<not> float_overflow \<le> 50"
    using float_overflow_large by simp_all
  then show ?thesis
    by (simp add: set_volume_def dict_get_default_def py_or_def py_mul_def float_of_def
        to_double_def small_int_def round_double_def)
qed

lemma bench_press_group:
  "process_exercise_set e
     (PDict [(''exerciseName'', PStr ''Bench Press''),
             (''sets'', PList [PDict raw_set_10kg, PDict raw_set_no_weight])]) =
   Inr (PDict
     [(''exerciseName'', PStr ''Bench Press''), (''category'', PStr []),
      (''sets'', PList
         [PDict [(''reps'', PInt 5), (''weight'', PFloat (Finite 10)),
                 (''duration'', PNone), (''restTime'', PNone)],
          PDict [(''reps'', PInt 3), (''weight'', PNone),
                 (''duration'', PNone), (''restTime'', PNone)]]),
      (''totalReps'', PInt 8), (''totalVolume'', PFloat (Finite 50))])"
proof -
  have ov: "\<not> float_overflow \<le> 0"
    using float_overflow_large by simp
  have t: "float_total e [Finite 0, Finite 50, Finite 0] = Finite 50"
    by (simp add: float_total_def small_int_def)
  show ?thesis
    using ov
    by (simp add: process_exercise_set_def bench_press_sets bench_press_volume
        set_volume_null_weight t dict_get_def dict_get_default_def set_reps_def sum_add_def)
qed



section \<open>The webhook signature\<close>

text \<open>
  C9. For a \<open>POST\<close> request to \<open>/sync\<close>: when the configured secret is unset or empty,
  the verification is true for any signature and the request is accepted (status 200,
  the sync detached), whatever the header holds; when a secret is set, the verification
  is true exactly when the signature is the secret, and the request is accepted exactly
  when the \<open>X-Webhook-Signature\<close> header is the secret and refused with 401 otherwise.
\<close>

theorem sync_webhook_authorization:
  assumes "endswith (url req) ''/sync''" and "http_method req = ''POST''"
  shows "(\<not> truthy_str (GARMIN_WEBHOOK_SECRET e) \<longrightarrow>
            verify_webhook_signature signature e
          \<and> status (fst (fst (on_fetch e req w))) = 200
          \<and> snd (fst (on_fetch e req w)) = SyncTask)
       \<and> (truthy_str (GARMIN_WEBHOOK_SECRET e) \<longrightarrow>
            (verify_webhook_signature signature e \<longleftrightarrow> signature = GARMIN_WEBHOOK_SECRET e)
          \<and> (status (fst (fst (on_fetch e req w))) = 200
               \<longleftrightarrow> headers req ''X-Webhook-Signature'' = GARMIN_WEBHOOK_SECRET e)
          \<and> (status (fst (fst (on_fetch e req w))) = 401
               \<longleftrightarrow> headers req ''X-Webhook-Signature'' \<noteq> GARMIN_WEBHOOK_SECRET e))"
  using assms
  by (auto simp: verify_webhook_signature_def on_fetch_def now_def Let_def split: prod.splits)

theorem sync_webhook_authorization_witness:
  "endswith (url (sync_request (Some ''guess''))) ''/sync''
   \<and> http_method (sync_request (Some ''guess'')) = ''POST''
   \<and> \<not> truthy_str (GARMIN_WEBHOOK_SECRET quiet_env)
   \<and> verify_webhook_signature (Some ''guess'') quiet_env
   \<and> status (fst (fst (on_fetch quiet_env (sync_request (Some ''guess'')) empty_world))) = 200
   \<and> truthy_str (GARMIN_WEBHOOK_SECRET (quiet_env\<lparr>GARMIN_WEBHOOK_SECRET := Some ''s3cret''\<rparr>))
   \<and> status (fst (fst (on_fetch (quiet_env\<lparr>GARMIN_WEBHOOK_SECRET := Some ''s3cret''\<rparr>)
         (sync_request (Some ''guess'')) empty_world))) = 401
   \<and> status (fst (fst (on_fetch (quiet_env\<lparr>GARMIN_WEBHOOK_SECRET := Some ''s3cret''\<rparr>)
         (sync_request (Some ''s3cret'')) empty_world))) = 200"
proof -
  have u: "endswith (url (sync_request sig)) ''/sync''" for sig
    by (simp add: sync_request_def endswith_def)
  have m: "http_method (sync_request sig) = ''POST''" for sig
    by (simp add: sync_request_def)
  have h: "headers (sync_request sig) ''X-Webhook-Signature'' = sig" for sig
    by (simp add: sync_request_def)
  have s0: "\<not> truthy_str (GARMIN_WEBHOOK_SECRET quiet_env)"
    by (simp add: quiet_env_def)
  have s1: "truthy_str (GARMIN_WEBHOOK_SECRET (quiet_env\<lparr>GARMIN_WEBHOOK_SECRET := Some ''s3cret''\<rparr>))"
    by simp
  show ?thesis
    using sync_webhook_authorization [OF u m, of quiet_env "Some ''guess''" "Some ''guess''" empty_world]
      sync_webhook_authorization [OF u m,
        of "quiet_env\<lparr>GARMIN_WEBHOOK_SECRET := Some ''s3cret''\<rparr>" "Some ''guess''" "Some ''guess''" empty_world]
      sync_webhook_authorization [OF u m,
        of "quiet_env\<lparr>GARMIN_WEBHOOK_SECRET := Some ''s3cret''\<rparr>" "Some ''s3cret''" "Some ''s3cret''" empty_world]
      u m s0 s1
    by (simp add: h)
qed

section \<open>What each step leaves alone\<close>

lemma emit_fields [simp]:
  "kv (emit ev w) = kv w" "activities (emit ev w) = activities w"
  "exercise_sets (emit ev w) = exercise_sets w" "ticks (emit ev w) = ticks w"
  "trace (emit ev w) = trace w @ [ev]"
  by (simp_all add: emit_def)

lemma kv_puts_emit [simp]:
  "kv_puts (emit ev w) = kv_puts w @ (if is_kv_put ev then [ev] else [])"
  by (simp add: kv_puts_def)

lemma kv_puts_update [simp]:
  "kv_puts (w\<lparr>ticks := n\<rparr>) = kv_puts w"
  "kv_puts (w\<lparr>activities := acts\<rparr>) = kv_puts w"
  "kv_puts (w\<lparr>exercise_sets := rows\<rparr>) = kv_puts w"
  "kv_puts (w\<lparr>kv := m\<rparr>) = kv_puts w"
  by (simp_all add: kv_puts_def)

lemma now_fields [simp]:
  "fst (now e w) = now_iso e (ticks w)"
  "kv (snd (now e w)) = kv w" "activities (snd (now e w)) = activities w"
  "exercise_sets (snd (now e w)) = exercise_sets w" "ticks (snd (now e w)) = Suc (ticks w)"
  "trace (snd (now e w)) = trace w" "kv_puts (snd (now e w)) = kv_puts w"
  by (simp_all add: now_def)

lemma run_stmt_fields [simp]:
  "snd (run_stmt e s args w) = emit (EvDb s args) w"
  by (simp add: run_stmt_def Let_def)

lemma run_stmt_cases:
  "run_stmt e s args w = (r, w') \<Longrightarrow> w' = emit (EvDb s args) w"
  by (auto simp: run_stmt_def Let_def split: if_splits)

text \<open>The statements of \<open>store_activity\<close> write to the database only.\<close>

lemma insert_sets_kv:
  "kv (snd (insert_sets e i x n sets w)) = kv w
   \<and> kv_puts (snd (insert_sets e i x n sets w)) = kv_puts w
   \<and> ticks (snd (insert_sets e i x n sets w)) = ticks w
   \<and> activities (snd (insert_sets e i x n sets w)) = activities w"
proof (induction sets arbitrary: n w)
  case Nil
  then show ?case by simp
next
  case (Cons s sets)
  show ?case
  proof (cases "set_row e i x n s")
    case (Inl err)
    then show ?thesis by simp
  next
    case (Inr args)
    then show ?thesis
      by (cases "run_stmt e InsertSet args w")
         (auto simp: Cons.IH dest!: run_stmt_cases split: sum.splits)
  qed
qed

lemma insert_exercises_kv:
  "kv (snd (insert_exercises e i xs w)) = kv w
   \<and> kv_puts (snd (insert_exercises e i xs w)) = kv_puts w
   \<and> ticks (snd (insert_exercises e i xs w)) = ticks w
   \<and> activities (snd (insert_exercises e i xs w)) = activities w"
proof (induction xs arbitrary: w)
  case Nil
  then show ?case by simp
next
  case (Cons x xs)
  show ?case
  proof (cases "py_item x ''sets''")
    case (Inl err)
    then show ?thesis by simp
  next
    case s: (Inr sets)
    show ?thesis
    proof (cases "iter_values sets")
      case (Inl err)
      with s show ?thesis by simp
    next
      case l: (Inr set_list)
      obtain r w1 where i: "insert_sets e i x 0 set_list w = (r, w1)"
        by (cases "insert_sets e i x 0 set_list w")
      from insert_sets_kv [of e i x 0 set_list w] i
      have "kv w1 = kv w \<and> kv_puts w1 = kv_puts w \<and> ticks w1 = ticks w
          \<and> activities w1 = activities w"
        by simp
      with s l i Cons.IH [of w1] show ?thesis
        by (cases r) simp_all
    qed
  qed
qed

lemma store_activity_kv:
  "kv (snd (store_activity e p w)) = kv w
   \<and> kv_puts (snd (store_activity e p w)) = kv_puts w
   \<and> ticks (snd (store_activity e p w)) = ticks w"
proof -
  have "kv (snd (insert_exercises e i xs w')) = kv w'
      \<and> kv_puts (snd (insert_exercises e i xs w')) = kv_puts w'
      \<and> ticks (snd (insert_exercises e i xs w')) = ticks w'" for i xs w'
    using insert_exercises_kv [of e i xs w'] by simp
  then show ?thesis
    by (auto simp: store_activity_def Let_def dest!: run_stmt_cases
        split: sum.splits prod.splits)
qed

lemma get_activity_by_id_world [simp]:
  "snd (get_activity_by_id e i w) = emit (EvDb SelectId [i]) w"
  by (auto simp: get_activity_by_id_def dest!: run_stmt_cases split: prod.splits sum.splits)

lemma fetch_activity_exercise_sets_world [simp]:
  "snd (fetch_activity_exercise_sets e i w) = emit (EvExerciseSets i) w"
  by (simp add: fetch_activity_exercise_sets_def Let_def split: sum.splits)

lemma process_activity_data_fields:
  "kv (snd (process_activity_data e a w)) = kv w
   \<and> kv_puts (snd (process_activity_data e a w)) = kv_puts w
   \<and> activities (snd (process_activity_data e a w)) = activities w
   \<and> exercise_sets (snd (process_activity_data e a w)) = exercise_sets w
   \<and> trace (snd (process_activity_data e a w)) = trace w"
  by (simp add: process_activity_data_def now_def Let_def split: sum.splits prod.splits)

section \<open>Properties of the loop over the fetched activities\<close>

text \<open>The statements of the \<open>try\<close> block, case by case.\<close>

lemma process_body_cases:
  obtains (no_id) err where "dict_item a ''activityId'' = Inl err"
      and "process_body e a w = (Failed err, w)"
  | (skipped) i row where "dict_item a ''activityId'' = Inr i"
      and "fst (get_activity_by_id e i w) = Some row"
      and "process_body e a w = (Skipped, emit (EvDb SelectId [i]) w)"
  | (no_type) i err where "dict_item a ''activityId'' = Inr i"
      and "fst (get_activity_by_id e i w) = None"
      and "type_key a PNone = Inl err"
      and "process_body e a w = (Failed err, emit (EvDb SelectId [i]) w)"
  | (not_processed) i a1 w2 err w3 where "dict_item a ''activityId'' = Inr i"
      and "fst (get_activity_by_id e i w) = None"
      and "kv w2 = kv w \<and> kv_puts w2 = kv_puts w \<and> activities w2 = activities w
           \<and> exercise_sets w2 = exercise_sets w
           \<and> filter is_lookup (trace w2) = filter is_lookup (trace w) @ [EvDb SelectId [i]]"
      and "process_activity_data e a1 w2 = (Inl err, w3)"
      and "process_body e a w = (Failed err, w3)"
  | (processed) i a1 w2 p w3 where "dict_item a ''activityId'' = Inr i"
      and "fst (get_activity_by_id e i w) = None"
      and "kv w2 = kv w \<and> kv_puts w2 = kv_puts w \<and> activities w2 = activities w
           \<and> exercise_sets w2 = exercise_sets w
           \<and> filter is_lookup (trace w2) = filter is_lookup (trace w) @ [EvDb SelectId [i]]"
      and "process_activity_data e a1 w2 = (Inr p, w3)"
      and "process_body e a w =
             (case store_activity e p w3 of
                (Inl err, w4) \<Rightarrow> (Failed err, w4)
              | (Inr u, w4) \<Rightarrow> (Stored, w4))"
proof (cases "dict_item a ''activityId''")
  case (Inl err)
  moreover from Inl have "process_body e a w = (Failed err, w)"
    by (simp add: process_body_def)
  ultimately show ?thesis by (rule no_id)
next
  case i: (Inr i)
  define w1 where "w1 = emit (EvDb SelectId [i]) w"
  show ?thesis
  proof (cases "fst (get_activity_by_id e i w)")
    case (Some row)
    with i have "process_body e a w = (Skipped, emit (EvDb SelectId [i]) w)"
      by (simp add: process_body_def should_update_activity_def split_beta)
    with i Some show ?thesis by (rule skipped)
  next
    case None
    show ?thesis
    proof (cases "type_key a PNone")
      case (Inl err)
      with i None have "process_body e a w = (Failed err, emit (EvDb SelectId [i]) w)"
        by (simp add: process_body_def split_beta)
      with i None Inl show ?thesis by (rule no_type)
    next
      case t: (Inr ty)
      define a1 where "a1 = (if ty = PStr ''strength_training''
         then AList.update ''fullExerciseSets'' (fst (fetch_activity_exercise_sets e i w1)) a
         else a)"
      define w2 where "w2 = (if ty = PStr ''strength_training''
         then emit (EvExerciseSets i) w1 else w1)"
      have f: "kv w2 = kv w \<and> kv_puts w2 = kv_puts w \<and> activities w2 = activities w
           \<and> exercise_sets w2 = exercise_sets w
           \<and> filter is_lookup (trace w2) = filter is_lookup (trace w) @ [EvDb SelectId [i]]"
        by (simp add: w2_def w1_def)
      obtain r w3 where pa: "process_activity_data e a1 w2 = (r, w3)"
        by (cases "process_activity_data e a1 w2")
      show ?thesis
      proof (cases r)
        case (Inl err)
        have "process_body e a w = (Failed err, w3)"
          using i None t pa Inl
          by (cases "ty = PStr ''strength_training''")
             (simp_all add: process_body_def split_beta a1_def w2_def w1_def)
        with i None f pa [unfolded Inl] show ?thesis by (rule not_processed)
      next
        case (Inr p)
        have "process_body e a w =
             (case store_activity e p w3 of
                (Inl err, w4) \<Rightarrow> (Failed err, w4)
              | (Inr u, w4) \<Rightarrow> (Stored, w4))"
          using i None t pa Inr
          by (cases "ty = PStr ''strength_training''")
             (simp_all add: process_body_def split_beta a1_def w2_def w1_def)
        with i None f pa [unfolded Inr] show ?thesis by (rule processed)
      qed
    qed
  qed
qed

lemma process_body_kv:
  "kv (snd (process_body e a w)) = kv w \<and> kv_puts (snd (process_body e a w)) = kv_puts w"
proof (cases rule: process_body_cases [of a e w])
  case (not_processed i a1 w2 err w3)
  with process_activity_data_fields [of e a1 w2] show ?thesis by simp
next
  case (processed i a1 w2 p w3)
  obtain r w4 where s: "store_activity e p w3 = (r, w4)"
    by (cases "store_activity e p w3")
  with store_activity_kv [of e p w3] process_activity_data_fields [of e a1 w2] processed
  have "kv w4 = kv w \<and> kv_puts w4 = kv_puts w" by simp
  with processed(5) s show ?thesis by (cases r) simp_all
qed simp_all


lemma process_one_not_dict:
  "\<not> is_dict a \<Longrightarrow> process_one e a w = (Inl AttributeError, w)"
  by (cases a) simp_all

lemma process_one_kv:
  "kv (snd (process_one e a w)) = kv w \<and> kv_puts (snd (process_one e a w)) = kv_puts w"
proof (cases "is_dict a")
  case True
  then obtain d where "a = PDict d" by (cases a) simp_all
  with process_body_kv [of e d w] show ?thesis by (simp add: split_beta)
next
  case False
  then show ?thesis by (simp add: process_one_not_dict)
qed

text \<open>The loop, pass by pass.\<close>

lemma process_loop_raise:
  "process_one e a w = (Inl err, w1) \<Longrightarrow> process_loop e (a # rest) n w = (Inl err, w1)"
  by simp

lemma process_loop_stored:
  "process_one e a w = (Inr Stored, w1)
   \<Longrightarrow> process_loop e (a # rest) n w = process_loop e rest (n + 1) w1"
  by simp

lemma process_loop_not_stored:
  "process_one e a w = (Inr out, w1) \<Longrightarrow> out \<noteq> Stored
   \<Longrightarrow> process_loop e (a # rest) n w = process_loop e rest n w1"
  by (cases out) simp_all

lemma process_loop_step:
  obtains (raises) err w1 where "process_one e a w = (Inl err, w1)"
      and "process_loop e (a # rest) n w = (Inl err, w1)"
  | (stored) w1 where "process_one e a w = (Inr Stored, w1)"
      and "process_loop e (a # rest) n w = process_loop e rest (n + 1) w1"
  | (not_stored) out w1 where "process_one e a w = (Inr out, w1)" and "out \<noteq> Stored"
      and "process_loop e (a # rest) n w = process_loop e rest n w1"
proof -
  obtain r w1 where p: "process_one e a w = (r, w1)"
    by (cases "process_one e a w")
  show ?thesis
  proof (cases r)
    case (Inl err)
    with p have a1: "process_one e a w = (Inl err, w1)" by simp
    from process_loop_raise [OF a1]
    have "process_loop e (a # rest) n w = (Inl err, w1)" .
    with a1 show ?thesis by (rule raises)
  next
    case (Inr out)
    show ?thesis
    proof (cases "out = Stored")
      case True
      with p Inr have a1: "process_one e a w = (Inr Stored, w1)" by simp
      from process_loop_stored [OF a1]
      have "process_loop e (a # rest) n w = process_loop e rest (n + 1) w1" .
      with a1 show ?thesis by (rule stored)
    next
      case False
      from p Inr have a1: "process_one e a w = (Inr out, w1)" by simp
      from process_loop_not_stored [OF a1 False]
      have "process_loop e (a # rest) n w = process_loop e rest n w1" .
      with a1 False show ?thesis by (rule not_stored)
    qed
  qed
qed




text \<open>Whatever happens to the dictionaries of \<open>xs\<close>, the loop goes on with what follows them.\<close>

lemma process_loop_append:
  "fst (process_loop e xs n w) = Inr m
   \<Longrightarrow> process_loop e (xs @ ys) n w = process_loop e ys m (snd (process_loop e xs n w))"
proof (induction xs arbitrary: n w)
  case Nil
  then show ?case by simp
next
  case (Cons a xs)
  show ?case
  proof (cases rule: process_loop_step [of e a w "xs @ ys" n])
    case (raises err w1)
    with Cons.prems show ?thesis by simp
  next
    case (stored w1)
    with Cons.prems Cons.IH [of "n + 1" w1] show ?thesis by simp
  next
    case (not_stored out w1)
    from not_stored(1,2) have "process_loop e (a # xs) n w = process_loop e xs n w1"
      by (rule process_loop_not_stored)
    with not_stored Cons.prems Cons.IH [of n w1] show ?thesis by simp
  qed
qed

lemma process_loop_kv:
  "kv (snd (process_loop e xs n w)) = kv w \<and> kv_puts (snd (process_loop e xs n w)) = kv_puts w"
proof (induction xs arbitrary: n w)
  case Nil
  then show ?case by simp
next
  case (Cons a xs)
  show ?case
  proof (cases rule: process_loop_step [of e a w xs n])
    case (raises err w1)
    with process_one_kv [of e a w] show ?thesis by simp
  next
    case (stored w1)
    with process_one_kv [of e a w] Cons.IH [of "n + 1" w1] show ?thesis by simp
  next
    case (not_stored out w1)
    with process_one_kv [of e a w] Cons.IH [of n w1] show ?thesis by simp
  qed
qed

subsection \<open>No processed activity has all the keys that \<open>store_activity\<close> subscripts\<close>







lemma lookups_not_dict: "\<not> is_dict a \<Longrightarrow> lookups [a] = []"
  by (cases a) (simp_all add: lookups_def)


section \<open>What fetching and authenticating leave alone\<close>

lemma fetch_loop_frame:
  "kv (snd (fetch_loop e l i m acc s w)) = kv w
   \<and> kv_puts (snd (fetch_loop e l i m acc s w)) = kv_puts w
   \<and> activities (snd (fetch_loop e l i m acc s w)) = activities w
   \<and> exercise_sets (snd (fetch_loop e l i m acc s w)) = exercise_sets w
   \<and> ticks (snd (fetch_loop e l i m acc s w)) = ticks w
   \<and> filter is_lookup (trace (snd (fetch_loop e l i m acc s w))) = filter is_lookup (trace w)"
proof (induction e l i m acc s w rule: fetch_loop.induct)
  case (1 e l i m acc s w)
  show ?case
    unfolding fetch_loop.simps [of e l i m acc s w]
    using 1 by (auto split: sum.splits option.splits)
qed

lemma fetch_activities_frame:
  "kv (snd (fetch_activities e l i w)) = kv w
   \<and> kv_puts (snd (fetch_activities e l i w)) = kv_puts w
   \<and> activities (snd (fetch_activities e l i w)) = activities w
   \<and> exercise_sets (snd (fetch_activities e l i w)) = exercise_sets w
   \<and> ticks (snd (fetch_activities e l i w)) = ticks w
   \<and> filter is_lookup (trace (snd (fetch_activities e l i w))) = filter is_lookup (trace w)"
  unfolding fetch_activities_def Let_def by (rule fetch_loop_frame)

lemma authenticate_garmin_frame:
  "activities (snd (authenticate_garmin e w)) = activities w
   \<and> exercise_sets (snd (authenticate_garmin e w)) = exercise_sets w
   \<and> ticks (snd (authenticate_garmin e w)) = ticks w
   \<and> kv (snd (authenticate_garmin e w)) ''lastSyncTime'' = kv w ''lastSyncTime''
   \<and> filter is_lookup (trace (snd (authenticate_garmin e w))) = filter is_lookup (trace w)"
  by (simp add: authenticate_garmin_def Let_def kv_put_def split: sum.splits)


section \<open>The sync run, stage by stage\<close>

lemma session_puts_kv_puts: "session_puts w = filter is_session_put (kv_puts w)"
proof -
  have "is_kv_put ev \<and> is_session_put ev \<longleftrightarrow> is_session_put ev" for ev
    by (cases ev) simp_all
  then show ?thesis by (simp add: session_puts_def kv_puts_def)
qed


lemma fetched_frame:
  "kv (snd (fetched e w)) = kv (snd (authenticate_garmin e w))
   \<and> kv_puts (snd (fetched e w)) = kv_puts (snd (authenticate_garmin e w))
   \<and> filter is_lookup (trace (snd (fetched e w))) = filter is_lookup (trace w)"
  using fetch_activities_frame [of e "kv (snd (authenticate_garmin e w)) ''lastSyncTime''"
      "\<not> truthy_str (kv (snd (authenticate_garmin e w)) ''lastSyncTime'')" "snd (authenticate_garmin e w)"]
    authenticate_garmin_frame [of e w]
  by (simp add: fetched_def Let_def)

lemma after_loop_frame:
  "kv (snd (after_loop e w)) = kv (snd (authenticate_garmin e w))
   \<and> kv_puts (snd (after_loop e w)) = kv_puts (snd (authenticate_garmin e w))"
  using process_loop_kv [of e "fst (fetched e w)" 0 "snd (fetched e w)"] fetched_frame [of e w]
  by (simp add: after_loop_def process_and_store_activities_def)





text \<open>A run that authenticates and whose loop completes, stage by stage.\<close>

lemma sync_authenticated:
  assumes "fst (authenticate_garmin e w)" and "fst (after_loop e w) = Inr n"
  shows "sync_garmin_data e w =
    (\<lparr>success = True, activitiesProcessed = Some n,
      isInitialSync = Some (\<not> truthy_str (kv (snd (authenticate_garmin e w)) ''lastSyncTime'')),
      error = None, timestamp = now_iso e (Suc (ticks (snd (after_loop e w))))\<rparr>,
     snd (now e (kv_put ''lastSyncTime'' (now_iso e (ticks (snd (after_loop e w))))
       (snd (now e (snd (after_loop e w)))))))"
proof -
  obtain r w3 where l: "after_loop e w = (r, w3)"
    by (cases "after_loop e w")
  with assms(2) have r: "r = Inr n" by simp
  from l [unfolded r] assms(1) show ?thesis
    by (simp add: sync_garmin_data_def after_loop_def fetched_def Let_def split_beta
        kv_put_def now_def)
qed

text \<open>A run that authenticates and whose loop an exception leaves.\<close>

lemma sync_escaped:
  assumes "fst (authenticate_garmin e w)" and "fst (after_loop e w) = Inl err"
  shows "sync_garmin_data e w =
    (\<lparr>success = False, activitiesProcessed = None, isInitialSync = None,
      error = Some err, timestamp = now_iso e (ticks (snd (after_loop e w)))\<rparr>,
     snd (now e (snd (after_loop e w))))"
proof -
  obtain r w3 where l: "after_loop e w = (r, w3)"
    by (cases "after_loop e w")
  with assms(2) have r: "r = Inl err" by simp
  from l [unfolded r] assms(1) show ?thesis
    by (simp add: sync_garmin_data_def after_loop_def fetched_def Let_def split_beta now_def)
qed

lemma sync_not_authenticated:
  assumes "\<not> fst (authenticate_garmin e w)"
  shows "sync_garmin_data e w =
    (\<lparr>success = False, activitiesProcessed = None, isInitialSync = None,
      error = Some (Exception ''Failed to authenticate with Garmin''),
      timestamp = now_iso e (ticks (snd (authenticate_garmin e w)))\<rparr>,
     snd (now e (snd (authenticate_garmin e w))))"
  using assms
  by (simp add: sync_garmin_data_def Let_def split_beta now_def)

section \<open>The end-to-end scenario, evaluated\<close>

declare process_one.simps [simp del]

lemmas scenario_defs = scenario_env_def quiet_env_def empty_world_def strength_activity_def
  run_activity_def clock_iso_def

lemmas process_defs = process_one.simps process_body_def dict_item_def get_activity_by_id_def run_stmt_def
  type_key_def dict_get_default_def dict_get_def fetch_activity_exercise_sets_def
  process_activity_data_def now_def emit_def Let_def process_exercise_sets_def
  bench_press_group py_or_def store_activity_def activity_columns_def

lemma scenario_auth:
  "authenticate_garmin scenario_env empty_world =
     (True, \<lparr>kv = [''garth_session'' \<mapsto> ''session''], activities = Map.empty, exercise_sets = [],
        ticks = 0, trace = [EvLogin, EvKvPut ''garth_session'' ''session'']\<rparr>)"
  by (simp add: authenticate_garmin_def scenario_defs Let_def kv_put_def emit_def)

lemma scenario_fetch:
  "fetch_activities scenario_env None True w =
     ([PDict strength_activity, PDict (run_activity 102), PDict (run_activity 103)],
      emit (EvSearch 0) w)"
  by (simp add: fetch_activities_def fetch_loop.simps scenario_env_def quiet_env_def
      filter_activities_def response_entries_def PAGE_SIZE_def)

lemma scenario_fetched:
  "fetched scenario_env empty_world =
     ([PDict strength_activity, PDict (run_activity 102), PDict (run_activity 103)],
      \<lparr>kv = [''garth_session'' \<mapsto> ''session''], activities = Map.empty, exercise_sets = [],
        ticks = 0, trace = [EvLogin, EvKvPut ''garth_session'' ''session'', EvSearch 0]\<rparr>)"
  by (simp add: fetched_def scenario_auth scenario_fetch emit_def)

lemma scenario_strength:
  assumes "activities w (PInt 101) = None"
  shows "process_one scenario_env (PDict strength_activity) w =
     (Inr (Failed (KeyError ''averagePower'')),
      w\<lparr>ticks := Suc (Suc (ticks w)),
        trace := trace w @ [EvDb SelectId [PInt 101], EvExerciseSets (PInt 101)]\<rparr>)"
  using assms by (simp add: process_defs scenario_defs)

lemma scenario_run:
  assumes "activities w (PInt i) = None"
  shows "process_one scenario_env (PDict (run_activity i)) w =
     (Inr (Failed (KeyError ''totalReps'')),
      w\<lparr>ticks := Suc (Suc (ticks w)), trace := trace w @ [EvDb SelectId [PInt i]]\<rparr>)"
  using assms by (simp add: process_defs scenario_defs)

lemma scenario_after_loop:
  "after_loop scenario_env empty_world =
     (Inr 0, \<lparr>kv = [''garth_session'' \<mapsto> ''session''], activities = Map.empty, exercise_sets = [],
        ticks = 6, trace = [EvLogin, EvKvPut ''garth_session'' ''session'', EvSearch 0,
          EvDb SelectId [PInt 101], EvExerciseSets (PInt 101),
          EvDb SelectId [PInt 102], EvDb SelectId [PInt 103]]\<rparr>)"
  by (simp add: after_loop_def scenario_fetched process_and_store_activities_def
      scenario_strength scenario_run)

text \<open>
  C1. The initial sync of the scenario (no stored watermark; the remote service returns
  one strength training with exercise-set detail and two runs). The three activities are
  fetched and each is processed, but \<open>store_activity\<close> raises \<open>KeyError\<close> on every one of
  them before any statement is run: the strength training has no \<open>averagePower\<close>, the
  runs have no \<open>totalReps\<close>. The run reports success with 0 activities processed, both
  tables stay empty, and the watermark is set to the clock reading taken after the loop.
\<close>

theorem initial_sync_scenario_stores_nothing:
  "fst (fetched scenario_env empty_world)
     = [PDict strength_activity, PDict (run_activity 102), PDict (run_activity 103)]
   \<and> fst (process_one scenario_env (PDict strength_activity) empty_world)
       = Inr (Failed (KeyError ''averagePower''))
   \<and> fst (process_one scenario_env (PDict (run_activity 102)) empty_world)
       = Inr (Failed (KeyError ''totalReps''))
   \<and> fst (process_one scenario_env (PDict (run_activity 103)) empty_world)
       = Inr (Failed (KeyError ''totalReps''))
   \<and> fst (sync_garmin_data scenario_env empty_world) =
       \<lparr>success = True, activitiesProcessed = Some 0, isInitialSync = Some True,
        error = None, timestamp = ''2024-06-01T12:00:07''\<rparr>
   \<and> activities (snd (sync_garmin_data scenario_env empty_world)) = Map.empty
   \<and> exercise_sets (snd (sync_garmin_data scenario_env empty_world)) = []
   \<and> kv (snd (sync_garmin_data scenario_env empty_world)) ''lastSyncTime''
       = Some ''2024-06-01T12:00:06''
   \<and> trace (snd (sync_garmin_data scenario_env empty_world)) =
       [EvLogin, EvKvPut ''garth_session'' ''session'', EvSearch 0,
        EvDb SelectId [PInt 101], EvExerciseSets (PInt 101),
        EvDb SelectId [PInt 102], EvDb SelectId [PInt 103],
        EvKvPut ''lastSyncTime'' ''2024-06-01T12:00:06'']"
proof -
  have e: "activities empty_world i = None" for i
    by (simp add: empty_world_def)
  have a: "fst (authenticate_garmin scenario_env empty_world)"
    by (simp add: scenario_auth)
  have l: "fst (after_loop scenario_env empty_world) = Inr 0"
    by (simp add: scenario_after_loop)
  have n: "now_iso scenario_env = clock_iso"
    by (simp add: scenario_env_def)
  show ?thesis
    by (simp add: scenario_fetched scenario_strength [OF e] scenario_run [OF e]
        sync_authenticated [OF a l] scenario_after_loop scenario_auth n clock_iso_def
        kv_put_def)
qed

section \<open>A stored activity and a failing lookup\<close>

lemma stored_world_eq:
  "store_activity quiet_env canonical_run empty_world = (Inr (), stored_world)"
  "stored_world =
     \<lparr>kv = Map.empty, activities = [PInt 102 \<mapsto> canonical_row], exercise_sets = [],
      ticks = 0, trace = [EvDb InsertOrReplaceActivity canonical_row]\<rparr>"
  by (simp_all add: stored_world_def store_activity_def canonical_run_def canonical_row_def
      quiet_env_def empty_world_def activity_columns_def dict_item_def dict_get_def
      run_stmt_def emit_def Let_def)

lemma lookup_fails_run:
  "process_one lookup_fails_env (PDict (run_activity 102)) w =
     (Inr (Failed (KeyError ''totalReps'')),
      w\<lparr>ticks := Suc (Suc (ticks w)), trace := trace w @ [EvDb SelectId [PInt 102]]\<rparr>)"
  by (simp add: process_defs lookup_fails_env_def quiet_env_def run_activity_def)

lemma store_activity_stores:
  assumes "store_activity e c w0 = (Inr u, w1)" and "dict_item c ''id'' = Inr i"
  shows "activities w1 i \<noteq> None"
proof -
  obtain args where a: "map_err (dict_item c) activity_columns = Inr args"
    using assms by (auto simp: store_activity_def split: sum.splits)
  define w2 where "w2 = (emit (EvDb InsertOrReplaceActivity args) w0)\<lparr>activities :=
     (activities w0)(i \<mapsto> args)\<rparr>"
  have ok: "run_stmt e InsertOrReplaceActivity args w0
      = (Inr (), emit (EvDb InsertOrReplaceActivity args) w0)"
    using assms a by (auto simp: store_activity_def run_stmt_def Let_def split: if_splits)
  show ?thesis
  proof (cases "truthy (dict_get c ''exerciseSets'')")
    case False
    with assms a ok show ?thesis
      by (auto simp: store_activity_def Let_def)
  next
    case True
    define w4 where "w4 = (emit (EvDb DeleteSets [i]) w2)\<lparr>exercise_sets :=
       filter (\<lambda>row. fst row \<noteq> i) (exercise_sets (emit (EvDb DeleteSets [i]) w2))\<rparr>"
    have d: "run_stmt e DeleteSets [i] w2 = (Inr (), emit (EvDb DeleteSets [i]) w2)"
      using assms a ok True
      by (auto simp: store_activity_def run_stmt_def Let_def w2_def split: if_splits)
    obtain xs where x: "iter_values (dict_get c ''exerciseSets'') = Inr xs"
      and r: "insert_exercises e i xs w4 = (Inr u, w1)"
      using assms a ok True d
      by (auto simp: store_activity_def Let_def w2_def w4_def split: sum.splits)
    from insert_exercises_kv [of e i xs w4] r have "activities w1 = activities w4" by simp
    then show ?thesis by (simp add: w4_def w2_def)
  qed
qed

text \<open>
  C10. \<open>get_activity_by_id\<close> returns \<open>None\<close> when the database raises, so the activity is
  not skipped and is processed. In the world where activity 102 is stored and with
  lookups that fail, the run over the same activity 102 does not overwrite the row:
  \<open>store_activity\<close> raises \<open>KeyError\<close> for \<open>totalReps\<close> before the
  \<open>INSERT OR REPLACE\<close> is run, the only new event is the lookup, the stored row is the
  old one and nothing is counted.
\<close>

theorem failed_lookup_scenario_writes_nothing:
  "activities stored_world (PInt 102) = Some canonical_row
   \<and> fst (get_activity_by_id lookup_fails_env (PInt 102) stored_world) = None
   \<and> fst (process_one lookup_fails_env (PDict (run_activity 102)) stored_world)
       = Inr (Failed (KeyError ''totalReps''))
   \<and> process_and_store_activities lookup_fails_env [PDict (run_activity 102)] stored_world =
       (Inr 0, stored_world\<lparr>ticks := 2,
             trace := [EvDb InsertOrReplaceActivity canonical_row, EvDb SelectId [PInt 102]]\<rparr>)
   \<and> activities (snd (process_and_store_activities lookup_fails_env [PDict (run_activity 102)]
         stored_world)) (PInt 102) = Some canonical_row"
proof -
  have g: "fst (get_activity_by_id lookup_fails_env (PInt 102) stored_world) = None"
    by (simp add: get_activity_by_id_def run_stmt_def lookup_fails_env_def quiet_env_def)
  show ?thesis
    by (simp add: g process_and_store_activities_def lookup_fails_run)
       (simp add: stored_world_eq(2))
qed

section \<open>Activities that are already stored\<close>

lemma lookup_finds:
  assumes "\<not> db_raises e SelectId [i]"
  shows "fst (get_activity_by_id e i w) = activities w i"
  using assms by (simp add: get_activity_by_id_def run_stmt_def Let_def)

lemma process_body_skips:
  assumes "dict_item a ''activityId'' = Inr i" and "\<not> db_raises e SelectId [i]"
    and "activities w i \<noteq> None"
  shows "process_body e a w = (Skipped, emit (EvDb SelectId [i]) w)"
proof (cases rule: process_body_cases [of a e w])
  case (skipped j row)
  with assms show ?thesis by simp
qed (use assms lookup_finds [of e i w] in simp_all)

lemma process_one_skips:
  assumes "py_item a ''activityId'' = Inr i" and "\<not> db_raises e SelectId [i]"
    and "activities w i \<noteq> None"
  shows "process_one e a w = (Inr Skipped, emit (EvDb SelectId [i]) w)"
proof (cases a)
  case (PDict d)
  with assms(1) have "dict_item d ''activityId'' = Inr i" by simp
  from process_body_skips [OF this assms(2,3)] PDict show ?thesis
    by (simp add: process_one.simps)
qed (use assms(1) in simp_all)

text \<open>
  C5. Let \<open>a\<close> be a fetched activity with id \<open>i\<close>, and let the lookup of \<open>i\<close> not raise.
  When a row with id \<open>i\<close> exists, the loop skips \<open>a\<close>: its only effect is the lookup
  (no enrichment request, no statement that writes), both tables are unchanged and the
  count is not incremented, and a second pass over \<open>a\<close> does the same. And a row with id
  \<open>i\<close> exists in every world that a successful \<open>store_activity\<close> of an activity with that
  id has produced, so a pass over \<open>a\<close> after the activity was stored changes nothing.
\<close>

theorem existing_activity_is_skipped:
  assumes "py_item a ''activityId'' = Inr i" and "\<not> db_raises e SelectId [i]"
  shows "(activities w i \<noteq> None \<longrightarrow>
            process_one e a w = (Inr Skipped, emit (EvDb SelectId [i]) w)
          \<and> process_loop e (a # rest) n w = process_loop e rest n (emit (EvDb SelectId [i]) w)
          \<and> process_and_store_activities e [a] w = (Inr 0, emit (EvDb SelectId [i]) w)
          \<and> activities (snd (process_and_store_activities e [a] w)) = activities w
          \<and> exercise_sets (snd (process_and_store_activities e [a] w)) = exercise_sets w
          \<and> process_and_store_activities e [a] (snd (process_and_store_activities e [a] w))
              = (Inr 0, emit (EvDb SelectId [i]) (emit (EvDb SelectId [i]) w)))
       \<and> (store_activity e c w0 = (Inr (), w) \<and> dict_item c ''id'' = Inr i \<longrightarrow>
            activities w i \<noteq> None)"
proof (intro conjI impI)
  assume ex: "activities w i \<noteq> None"
  show s: "process_one e a w = (Inr Skipped, emit (EvDb SelectId [i]) w)"
    using assms ex by (rule process_one_skips)
  show "process_loop e (a # rest) n w = process_loop e rest n (emit (EvDb SelectId [i]) w)"
    using s by (rule process_loop_not_stored) simp
  show p: "process_and_store_activities e [a] w = (Inr 0, emit (EvDb SelectId [i]) w)"
    by (simp add: process_and_store_activities_def s)
  show "activities (snd (process_and_store_activities e [a] w)) = activities w"
    and "exercise_sets (snd (process_and_store_activities e [a] w)) = exercise_sets w"
    by (simp_all add: p)
  have "process_one e a (emit (EvDb SelectId [i]) w)
      = (Inr Skipped, emit (EvDb SelectId [i]) (emit (EvDb SelectId [i]) w))"
    using assms ex by (intro process_one_skips) simp_all
  then show "process_and_store_activities e [a] (snd (process_and_store_activities e [a] w))
              = (Inr 0, emit (EvDb SelectId [i]) (emit (EvDb SelectId [i]) w))"
    by (simp add: p) (simp add: process_and_store_activities_def)
next
  assume "store_activity e c w0 = (Inr (), w) \<and> dict_item c ''id'' = Inr i"
  then have "store_activity e c w0 = (Inr (), w)" and "dict_item c ''id'' = Inr i"
    by simp_all
  then show "activities w i \<noteq> None"
    by (rule store_activity_stores)
qed

theorem existing_activity_is_skipped_witness:
  "py_item (PDict (run_activity 102)) ''activityId'' = Inr (PInt 102)
   \<and> \<not> db_raises quiet_env SelectId [PInt 102]
   \<and> store_activity quiet_env canonical_run empty_world = (Inr (), stored_world)
   \<and> dict_item canonical_run ''id'' = Inr (PInt 102)
   \<and> activities stored_world (PInt 102) \<noteq> None
   \<and> process_and_store_activities quiet_env [PDict (run_activity 102)] stored_world
       = (Inr 0, emit (EvDb SelectId [PInt 102]) stored_world)
   \<and> activities (snd (process_and_store_activities quiet_env [PDict (run_activity 102)] stored_world))
       = activities stored_world
   \<and> exercise_sets (snd (process_and_store_activities quiet_env [PDict (run_activity 102)] stored_world))
       = exercise_sets stored_world"
proof -
  have a: "py_item (PDict (run_activity 102)) ''activityId'' = Inr (PInt 102)"
    by (simp add: run_activity_def dict_item_def)
  have b: "\<not> db_raises quiet_env SelectId [PInt 102]"
    by (simp add: quiet_env_def)
  have c: "dict_item canonical_run ''id'' = Inr (PInt 102)"
    by (simp add: canonical_run_def dict_item_def)
  from existing_activity_is_skipped [OF a b, of stored_world "[]" 0 canonical_run empty_world]
    a b c stored_world_eq(1)
  show ?thesis by simp
qed

section \<open>A fetched element that is no dictionary\<close>







section \<open>The watermark\<close>




section \<open>The result of a run\<close>




section \<open>The persisted session\<close>

text \<open>The fresh login, as \<open>authenticate_garmin\<close> performs it from the world \<open>w\<close>.\<close>

lemma authenticate_garmin_fresh:
  assumes "truthy_str (GARMIN_USERNAME e)" and "truthy_str (GARMIN_PASSWORD e)"
    and "\<not> session_resumes e w"
  shows "authenticate_garmin e w =
     (case login e (the (GARMIN_USERNAME e)) (the (GARMIN_PASSWORD e)) of
        Inl err \<Rightarrow> (False, emit EvLogin w)
      | Inr blob \<Rightarrow> (True, kv_put ''garth_session'' blob (emit EvLogin w)))"
  using assms
  by (auto simp: authenticate_garmin_def session_resumes_def Let_def
      split: sum.splits option.splits)

lemma authenticate_garmin_resumed:
  assumes "truthy_str (GARMIN_USERNAME e)" and "truthy_str (GARMIN_PASSWORD e)"
    and "session_resumes e w"
  shows "authenticate_garmin e w = (True, w)"
  using assms
  by (auto simp: authenticate_garmin_def session_resumes_def Let_def
      split: sum.splits option.splits)

lemma authenticate_garmin_no_credentials:
  assumes "\<not> (truthy_str (GARMIN_USERNAME e) \<and> truthy_str (GARMIN_PASSWORD e))"
  shows "authenticate_garmin e w = (False, w)"
  using assms by (auto simp: authenticate_garmin_def Let_def)

lemma sync_session_puts:
  "session_puts (snd (sync_garmin_data e w)) = session_puts (snd (authenticate_garmin e w))"
proof (cases "fst (authenticate_garmin e w)")
  case True
  show ?thesis
  proof (cases "fst (after_loop e w)")
    case (Inl err)
    with after_loop_frame [of e w] show ?thesis
      by (simp add: sync_escaped [OF True Inl] session_puts_kv_puts)
  next
    case (Inr n)
    with after_loop_frame [of e w] show ?thesis
      by (simp add: sync_authenticated [OF True Inr] session_puts_kv_puts kv_put_def)
  qed
next
  case False
  then show ?thesis
    by (simp add: sync_not_authenticated session_puts_kv_puts)
qed

lemma sync_kv_session:
  "kv (snd (sync_garmin_data e w)) ''garth_session''
     = kv (snd (authenticate_garmin e w)) ''garth_session''"
proof (cases "fst (authenticate_garmin e w)")
  case True
  show ?thesis
  proof (cases "fst (after_loop e w)")
    case (Inl err)
    with after_loop_frame [of e w] show ?thesis
      by (simp add: sync_escaped [OF True Inl])
  next
    case (Inr n)
    with after_loop_frame [of e w] show ?thesis
      by (simp add: sync_authenticated [OF True Inr] kv_put_def)
  qed
next
  case False
  then show ?thesis
    by (simp add: sync_not_authenticated)
qed

text \<open>
  C8. A run of \<open>sync_garmin_data\<close> adds at most one write of the session blob to the
  writes made before it. When it adds one, the saved session was not resumed and the
  write is that of the fresh login: the blob written and stored is the one the login
  returned. And when credentials are configured and a saved session is there, a failure
  of \<open>resume_data\<close> (the deserialization) or of the probe (with any exception) does not end
  the authentication: \<open>authenticate_garmin\<close> goes on to the fresh login, and its result
  is that of the login.
\<close>

theorem session_written_only_by_fresh_login:
  "length (session_puts (snd (sync_garmin_data e w))) \<le> length (session_puts w) + 1
   \<and> (session_puts (snd (sync_garmin_data e w)) \<noteq> session_puts w \<longrightarrow>
        \<not> session_resumes e w
      \<and> (\<exists>blob. login e (the (GARMIN_USERNAME e)) (the (GARMIN_PASSWORD e)) = Inr blob
            \<and> session_puts (snd (sync_garmin_data e w))
                = session_puts w @ [EvKvPut ''garth_session'' blob]
            \<and> kv (snd (sync_garmin_data e w)) ''garth_session'' = Some blob))
   \<and> (truthy_str (GARMIN_USERNAME e) \<and> truthy_str (GARMIN_PASSWORD e)
        \<and> kv w ''garth_session'' = Some saved
        \<and> (isl (resume_data e saved) \<or> isl (client_username e saved)) \<longrightarrow>
        authenticate_garmin e w =
          (case login e (the (GARMIN_USERNAME e)) (the (GARMIN_PASSWORD e)) of
             Inl err \<Rightarrow> (False, emit EvLogin w)
           | Inr blob \<Rightarrow> (True, kv_put ''garth_session'' blob (emit EvLogin w))))"
proof -
  consider (none) "\<not> (truthy_str (GARMIN_USERNAME e) \<and> truthy_str (GARMIN_PASSWORD e))"
    | (resumed) "truthy_str (GARMIN_USERNAME e)" "truthy_str (GARMIN_PASSWORD e)"
        "session_resumes e w"
    | (fresh) "truthy_str (GARMIN_USERNAME e)" "truthy_str (GARMIN_PASSWORD e)"
        "\<not> session_resumes e w"
    by blast
  then have 1: "length (session_puts (snd (sync_garmin_data e w))) \<le> length (session_puts w) + 1
   \<and> (session_puts (snd (sync_garmin_data e w)) \<noteq> session_puts w \<longrightarrow>
        \<not> session_resumes e w
      \<and> (\<exists>blob. login e (the (GARMIN_USERNAME e)) (the (GARMIN_PASSWORD e)) = Inr blob
            \<and> session_puts (snd (sync_garmin_data e w))
                = session_puts w @ [EvKvPut ''garth_session'' blob]
            \<and> kv (snd (sync_garmin_data e w)) ''garth_session'' = Some blob))"
  proof cases
    case none
    then show ?thesis
      by (simp add: sync_session_puts authenticate_garmin_no_credentials)
  next
    case resumed
    then show ?thesis
      by (simp add: sync_session_puts authenticate_garmin_resumed)
  next
    case fresh
    show ?thesis
    proof (cases "login e (the (GARMIN_USERNAME e)) (the (GARMIN_PASSWORD e))")
      case (Inl err)
      show ?thesis
        unfolding sync_session_puts sync_kv_session authenticate_garmin_fresh [OF fresh] Inl
        using fresh by (simp add: session_puts_def)
    next
      case (Inr blob)
      show ?thesis
        unfolding sync_session_puts sync_kv_session authenticate_garmin_fresh [OF fresh] Inr
        using fresh by (simp add: session_puts_def kv_put_def)
    qed
  qed
  have 2: "authenticate_garmin e w =
          (case login e (the (GARMIN_USERNAME e)) (the (GARMIN_PASSWORD e)) of
             Inl err \<Rightarrow> (False, emit EvLogin w)
           | Inr blob \<Rightarrow> (True, kv_put ''garth_session'' blob (emit EvLogin w)))"
    if "truthy_str (GARMIN_USERNAME e) \<and> truthy_str (GARMIN_PASSWORD e)
        \<and> kv w ''garth_session'' = Some saved
        \<and> (isl (resume_data e saved) \<or> isl (client_username e saved))"
  proof -
    from that have "\<not> session_resumes e w"
      by (auto simp: session_resumes_def)
    with that show ?thesis
      by (intro authenticate_garmin_fresh) simp_all
  qed
  from 1 2 show ?thesis by blast
qed

theorem session_written_only_by_fresh_login_witness:
  "truthy_str (GARMIN_USERNAME resume_fails_env) \<and> truthy_str (GARMIN_PASSWORD resume_fails_env)
   \<and> kv stale_session_world ''garth_session'' = Some ''stale''
   \<and> isl (resume_data resume_fails_env ''stale'')
   \<and> authenticate_garmin resume_fails_env stale_session_world
       = (True, kv_put ''garth_session'' ''session'' (emit EvLogin stale_session_world))
   \<and> session_puts (snd (sync_garmin_data resume_fails_env stale_session_world))
       = [EvKvPut ''garth_session'' ''session'']
   \<and> session_puts (snd (sync_garmin_data resume_fails_env stale_session_world))
       \<noteq> session_puts stale_session_world
   \<and> \<not> session_resumes resume_fails_env stale_session_world
   \<and> kv (snd (sync_garmin_data resume_fails_env stale_session_world)) ''garth_session''
       = Some ''session''
   \<and> session_puts (snd (sync_garmin_data quiet_env stale_session_world)) = []"
proof -
  have c: "truthy_str (GARMIN_USERNAME resume_fails_env)"
      "truthy_str (GARMIN_PASSWORD resume_fails_env)"
      "kv stale_session_world ''garth_session'' = Some ''stale''"
      "isl (resume_data resume_fails_env ''stale'')"
      "login resume_fails_env (the (GARMIN_USERNAME resume_fails_env))
         (the (GARMIN_PASSWORD resume_fails_env)) = Inr ''session''"
      "session_puts stale_session_world = []"
    by (simp_all add: resume_fails_env_def quiet_env_def stale_session_world_def
        empty_world_def session_puts_def)
  have "authenticate_garmin quiet_env stale_session_world = (True, stale_session_world)"
    by (simp add: authenticate_garmin_def quiet_env_def stale_session_world_def
        empty_world_def Let_def)
  then have q: "session_puts (snd (sync_garmin_data quiet_env stale_session_world)) = []"
    unfolding sync_session_puts
    by (simp add: stale_session_world_def empty_world_def session_puts_def)
  have a: "authenticate_garmin resume_fails_env stale_session_world
       = (True, kv_put ''garth_session'' ''session'' (emit EvLogin stale_session_world))"
    by (simp add: authenticate_garmin_def resume_fails_env_def quiet_env_def
        stale_session_world_def empty_world_def Let_def)
  have p: "session_puts (snd (sync_garmin_data resume_fails_env stale_session_world))
       = [EvKvPut ''garth_session'' ''session'']"
    unfolding sync_session_puts a
    by (simp add: session_puts_def kv_put_def stale_session_world_def empty_world_def)
  from session_written_only_by_fresh_login [of resume_fails_env stale_session_world "''stale''"]
    c q a p
  show ?thesis
    by simp
qed

section \<open>The incremental fetch\<close>

lemma newer_than_filter:
  "newer_than e d page = Inr kept \<Longrightarrow>
     kept = filter (\<lambda>a. \<exists>t. start_time e a = Inr t \<and> dt_gt t d = Inr True) page"
proof (induction page arbitrary: kept)
  case Nil
  then show ?case by simp
next
  case (Cons a page)
  then show ?case
    by (auto split: sum.splits if_splits)
qed

lemma filter_activities_incremental:
  assumes "wm \<noteq> []" and "filter_activities e (Some wm) False page = Inr kept"
  shows "kept = filter (started_after e wm) page"
proof -
  from assms obtain d where d: "parse_time e wm = Inr d" and n: "newer_than e d page = Inr kept"
    by (auto simp: filter_activities_def split: sum.splits)
  have "started_after e wm = (\<lambda>a. \<exists>t. start_time e a = Inr t \<and> dt_gt t d = Inr True)"
    by (auto simp: started_after_def d fun_eq_iff split: sum.splits)
  with newer_than_filter [OF n] show ?thesis by simp
qed

lemma filter_activities_length:
  "filter_activities e l i page = Inr kept \<Longrightarrow> length kept \<le> length page"
  by (auto simp: filter_activities_def dest!: newer_than_filter split: sum.splits if_splits)

lemma fetch_loop_started_after:
  assumes "wm \<noteq> []" and "list_all (started_after e wm) acc"
  shows "list_all (started_after e wm) (fst (fetch_loop e (Some wm) False m acc s w))"
  using assms(2)
proof (induction e "Some wm" False m acc s w rule: fetch_loop.induct)
  case (1 e m acc s w)
  have k: "list_all (started_after e wm) kept"
    if "filter_activities e (Some wm) False page = Inr kept" for page kept
    using filter_activities_incremental [OF assms(1) that] by (simp add: list_all_iff)
  show ?case
    unfolding fetch_loop.simps [of e "Some wm" False m acc s w]
    using 1 k by (auto split: sum.splits option.splits)
qed

lemma fetch_loop_requests:
  "\<exists>evs. trace (snd (fetch_loop e l i m acc s w)) = trace w @ evs
         \<and> list_all (keeps_all e l i) (butlast evs)"
proof (induction e l i m acc s w rule: fetch_loop.induct)
  case (1 e l i m acc s w)
  have one: "\<exists>evs. trace (emit (EvSearch s) w) = trace w @ evs
         \<and> list_all (keeps_all e l i) (butlast evs)"
    by (rule exI [of _ "[EvSearch s]"]) simp
  have none: "\<exists>evs. trace w = trace w @ evs \<and> list_all (keeps_all e l i) (butlast evs)"
    by (rule exI [of _ "[]"]) simp
  have more: "\<exists>evs. trace (snd (fetch_loop e l i m (acc @ kept) (s + PAGE_SIZE)
                    (emit (EvSearch s) w))) = trace w @ evs
         \<and> list_all (keeps_all e l i) (butlast evs)"
    if c: "length acc < m" "search e s = Inr resp" "response_entries resp = Inr page"
      "length page \<noteq> 0" "filter_activities e l i page = Inr kept"
      "\<not> length kept < length page" "\<not> length page < PAGE_SIZE"
    for resp page kept
  proof -
    from "1.IH" [OF c(1) c(2) c(3) c(4) c(5) c(6) c(7)]
    obtain evs where t: "trace (snd (fetch_loop e l i m (acc @ kept) (s + PAGE_SIZE)
          (emit (EvSearch s) w))) = trace (emit (EvSearch s) w) @ evs"
      and k: "list_all (keeps_all e l i) (butlast evs)"
      by blast
    have "\<not> drops e l i s"
      using c by (simp add: drops_def page_at_def)
    with k have "list_all (keeps_all e l i) (butlast (EvSearch s # evs))"
      by simp
    with t show ?thesis
      by (intro exI [of _ "EvSearch s # evs"]) simp
  qed
  show ?case
    unfolding fetch_loop.simps [of e l i m acc s w]
    using one none more by (auto split: sum.splits option.splits simp del: emit_fields)
qed

lemma fetch_activities_requests:
  "list_all (keeps_all e l i) (butlast (added w (snd (fetch_activities e l i w))))"
proof -
  obtain evs where "trace (snd (fetch_activities e l i w)) = trace w @ evs"
    and "list_all (keeps_all e l i) (butlast evs)"
    unfolding fetch_activities_def Let_def using fetch_loop_requests by blast
  then show ?thesis by (simp add: added_def)
qed

lemma page_at_entries:
  assumes "page_at e s \<noteq> []"
  obtains resp where "search e s = Inr resp" and "response_entries resp = Inr (page_at e s)"
  using assms by (auto simp: page_at_def split: sum.splits)

lemma fetch_activities_cutoff:
  assumes "filter_activities e l False (page_at e 0) = Inr kept"
    and "length kept < length (page_at e 0)"
  shows "fetch_activities e l False w = (kept, emit (EvSearch 0) w)"
proof -
  from assms(2) have "page_at e 0 \<noteq> []" by auto
  then obtain resp where "search e 0 = Inr resp" "response_entries resp = Inr (page_at e 0)"
    by (rule page_at_entries)
  with assms show ?thesis
    by (auto simp: fetch_activities_def fetch_loop.simps [of e l False 100 "[]" 0 w])
qed

text \<open>
  C2. In an incremental fetch (a watermark \<open>wm\<close> is given and the sync is not initial):
  \<^item> every activity returned has a start time that parses and is strictly after the
    watermark;
  \<^item> every page request but the last one made was for a page from which the filter
    dropped nothing, so a page from which it drops an activity is the last one requested;
  \<^item> when the filter drops an activity from the first page, the fetch returns exactly
    the activities of that page that started after the watermark and requests no other
    page;
  \<^item> this is the fetch that \<open>sync_garmin_data\<close> runs when a watermark is stored.
\<close>

theorem incremental_fetch_filters_and_stops:
  assumes "wm \<noteq> []"
  shows "list_all (started_after e wm) (fst (fetch_activities e (Some wm) False w))
       \<and> list_all (keeps_all e (Some wm) False)
           (butlast (added w (snd (fetch_activities e (Some wm) False w))))
       \<and> (filter_activities e (Some wm) False (page_at e 0) = Inr kept
            \<and> length kept < length (page_at e 0) \<longrightarrow>
          fetch_activities e (Some wm) False w = (kept, emit (EvSearch 0) w)
          \<and> kept = filter (started_after e wm) (page_at e 0))
       \<and> (kv (snd (authenticate_garmin e w)) ''lastSyncTime'' = Some wm \<longrightarrow>
          fetched e w = fetch_activities e (Some wm) False (snd (authenticate_garmin e w)))"
proof (intro conjI impI)
  show "list_all (started_after e wm) (fst (fetch_activities e (Some wm) False w))"
    unfolding fetch_activities_def Let_def
    using assms by (intro fetch_loop_started_after) simp_all
  show "list_all (keeps_all e (Some wm) False)
           (butlast (added w (snd (fetch_activities e (Some wm) False w))))"
    by (rule fetch_activities_requests)
next
  assume a: "filter_activities e (Some wm) False (page_at e 0) = Inr kept
            \<and> length kept < length (page_at e 0)"
  then have a2: "filter_activities e (Some wm) False (page_at e 0) = Inr kept"
    and a3: "length kept < length (page_at e 0)"
    by simp_all
  from a2 a3 show "fetch_activities e (Some wm) False w = (kept, emit (EvSearch 0) w)"
    by (rule fetch_activities_cutoff)
  from assms a2 show "kept = filter (started_after e wm) (page_at e 0)"
    by (rule filter_activities_incremental)
next
  assume "kv (snd (authenticate_garmin e w)) ''lastSyncTime'' = Some wm"
  with assms
  show "fetched e w = fetch_activities e (Some wm) False (snd (authenticate_garmin e w))"
    by (simp add: fetched_def Let_def)
qed

theorem incremental_fetch_filters_and_stops_witness:
  "''2024-05-30T00:00:00'' \<noteq> []
   \<and> page_at incremental_env 0 = [PDict strength_activity, PDict (run_activity 102)]
   \<and> filter_activities incremental_env (Some ''2024-05-30T00:00:00'') False
        [PDict strength_activity, PDict (run_activity 102)] = Inr [PDict strength_activity]
   \<and> length [PDict strength_activity]
        < length [PDict strength_activity, PDict (run_activity 102)]
   \<and> fetch_activities incremental_env (Some ''2024-05-30T00:00:00'') False synced_world
        = ([PDict strength_activity], emit (EvSearch 0) synced_world)
   \<and> list_all (started_after incremental_env ''2024-05-30T00:00:00'')
        [PDict strength_activity]
   \<and> [PDict strength_activity]
        = filter (started_after incremental_env ''2024-05-30T00:00:00'')
            [PDict strength_activity, PDict (run_activity 102)]
   \<and> added synced_world
        (snd (fetch_activities incremental_env (Some ''2024-05-30T00:00:00'') False synced_world))
        = [EvSearch 0]"
proof -
  have w: "''2024-05-30T00:00:00'' \<noteq> []"
    by simp
  have s: "page_at incremental_env 0 = [PDict strength_activity, PDict (run_activity 102)]"
    by (simp add: page_at_def response_entries_def incremental_env_def quiet_env_def)
  have f: "filter_activities incremental_env (Some ''2024-05-30T00:00:00'') False
        [PDict strength_activity, PDict (run_activity 102)] = Inr [PDict strength_activity]"
    by (simp add: filter_activities_def parse_time_def replace_Z_def incremental_env_def
        quiet_env_def example_fromisoformat_def start_time_def dict_item_def
        strength_activity_def run_activity_def)
  note t = incremental_fetch_filters_and_stops [OF w, of incremental_env synced_world
      "[PDict strength_activity]"]
  from t s f
  have c: "fetch_activities incremental_env (Some ''2024-05-30T00:00:00'') False synced_world
        = ([PDict strength_activity], emit (EvSearch 0) synced_world)"
    by simp
  from t s f
  have k: "[PDict strength_activity]
        = filter (started_after incremental_env ''2024-05-30T00:00:00'')
            [PDict strength_activity, PDict (run_activity 102)]"
    by (simp del: filter.simps)
  from t have "list_all (started_after incremental_env ''2024-05-30T00:00:00'')
      (fst (fetch_activities incremental_env (Some ''2024-05-30T00:00:00'') False synced_world))"
    by (rule conjunct1)
  then have a: "list_all (started_after incremental_env ''2024-05-30T00:00:00'')
      [PDict strength_activity]"
    by (simp add: c)
  have d: "added synced_world
        (snd (fetch_activities incremental_env (Some ''2024-05-30T00:00:00'') False synced_world))
        = [EvSearch 0]"
    by (simp add: c added_def)
  have l: "length [PDict strength_activity]
        < length [PDict strength_activity, PDict (run_activity 102)]"
    by simp
  show ?thesis
    by (intro conjI w s f l c a k d)
qed

section \<open>The ceilings of the fetch\<close>

lemma fetch_loop_bound:
  assumes "\<forall>s. length (page_at e s) \<le> PAGE_SIZE"
    and "PAGE_SIZE dvd m" and "PAGE_SIZE dvd length acc" and "length acc \<le> m"
  shows "length (fst (fetch_loop e l i m acc s w)) \<le> m"
  using assms
proof (induction e l i m acc s w rule: fetch_loop.induct)
  case (1 e l i m acc s w)
  have room: "length acc + 20 \<le> m" if "length acc < m"
    using that "1.prems"(2,3) by (auto simp: PAGE_SIZE_def dvd_def)
  have small: "length kept \<le> 20"
    if "search e s = Inr resp" "response_entries resp = Inr page"
      "filter_activities e l i page = Inr kept" for resp page kept
  proof -
    from that(1,2) have "page_at e s = page" by (simp add: page_at_def)
    with "1.prems"(1) have "length page \<le> 20" by (auto simp: PAGE_SIZE_def)
    with filter_activities_length [OF that(3)] show ?thesis by simp
  qed
  have more: "length (fst (fetch_loop e l i m (acc @ kept) (s + PAGE_SIZE)
                    (emit (EvSearch s) w))) \<le> m"
    if c: "length acc < m" "search e s = Inr resp" "response_entries resp = Inr page"
      "length page \<noteq> 0" "filter_activities e l i page = Inr kept"
      "\<not> length kept < length page" "\<not> length page < PAGE_SIZE"
    for resp page kept
  proof -
    from small [OF c(2) c(3) c(5)] c(6) c(7) have "length kept = 20"
      by (simp add: PAGE_SIZE_def)
    with room [OF c(1)] "1.prems"(3)
    have "PAGE_SIZE dvd length (acc @ kept)" "length (acc @ kept) \<le> m"
      by (simp_all add: PAGE_SIZE_def)
    with "1.IH" [OF c(1) c(2) c(3) c(4) c(5) c(6) c(7) "1.prems"(1) "1.prems"(2)]
    show ?thesis by simp
  qed
  show ?case
    unfolding fetch_loop.simps [of e l i m acc s w]
    using "1.prems"(4) room small more
    by (auto split: sum.splits option.splits simp del: emit_fields) fastforce+
qed

lemma fetch_loop_request_count:
  "\<exists>evs. trace (snd (fetch_loop e l i m acc s w)) = trace w @ evs
         \<and> length evs * 20 \<le> (m - length acc) + 19"
proof (induction e l i m acc s w rule: fetch_loop.induct)
  case (1 e l i m acc s w)
  have one: "\<exists>evs. trace (emit (EvSearch s) w) = trace w @ evs
         \<and> length evs * 20 \<le> (m - length acc) + 19" if "length acc < m"
    using that by (intro exI [of _ "[EvSearch s]"]) simp
  have none: "\<exists>evs. trace w = trace w @ evs \<and> length evs * 20 \<le> (m - length acc) + 19"
    by (rule exI [of _ "[]"]) simp
  have more: "\<exists>evs. trace (snd (fetch_loop e l i m (acc @ kept) (s + PAGE_SIZE)
                    (emit (EvSearch s) w))) = trace w @ evs
         \<and> length evs * 20 \<le> (m - length acc) + 19"
    if c: "length acc < m" "search e s = Inr resp" "response_entries resp = Inr page"
      "length page \<noteq> 0" "filter_activities e l i page = Inr kept"
      "\<not> length kept < length page" "\<not> length page < PAGE_SIZE"
    for resp page kept
  proof -
    from "1.IH" [OF c(1) c(2) c(3) c(4) c(5) c(6) c(7)]
    obtain evs where t: "trace (snd (fetch_loop e l i m (acc @ kept) (s + PAGE_SIZE)
          (emit (EvSearch s) w))) = trace (emit (EvSearch s) w) @ evs"
      and k: "length evs * 20 \<le> (m - length (acc @ kept)) + 19"
      by blast
    from c(6) c(7) have "20 \<le> length kept" by (simp add: PAGE_SIZE_def)
    with k c(1) have "length (EvSearch s # evs) * 20 \<le> (m - length acc) + 19"
      by simp arith
    with t show ?thesis
      by (intro exI [of _ "EvSearch s # evs"]) simp
  qed
  show ?case
    unfolding fetch_loop.simps [of e l i m acc s w]
    using one none more by (auto split: sum.splits option.splits simp del: emit_fields)
qed

lemma fetch_loop_full_page:
  assumes "length acc < m" and "length (page_at e s) = PAGE_SIZE"
    and "filter_activities e l i (page_at e s) = Inr (page_at e s)"
  shows "fetch_loop e l i m acc s w =
     fetch_loop e l i m (acc @ page_at e s) (s + PAGE_SIZE) (emit (EvSearch s) w)"
proof -
  from assms(2) have "page_at e s \<noteq> []"
    by (auto simp: PAGE_SIZE_def)
  then obtain resp where "search e s = Inr resp" "response_entries resp = Inr (page_at e s)"
    by (rule page_at_entries)
  with assms show ?thesis
    by (subst fetch_loop.simps) (simp add: PAGE_SIZE_def del: emit_fields)
qed

lemma fetch_loop_ceiling:
  assumes "\<not> length acc < m"
  shows "fetch_loop e l i m acc s w = (acc, w)"
  using assms by (subst fetch_loop.simps) simp

lemma fetch_five_full_pages:
  assumes "\<forall>s. length (page_at e s) = PAGE_SIZE
             \<and> filter_activities e l False (page_at e s) = Inr (page_at e s)"
  shows "fetch_activities e l False w =
     (page_at e 0 @ page_at e 20 @ page_at e 40 @ page_at e 60 @ page_at e 80,
      emit (EvSearch 80) (emit (EvSearch 60) (emit (EvSearch 40) (emit (EvSearch 20)
        (emit (EvSearch 0) w)))))"
proof -
  have len: "length (page_at e s) = 20" for s
    using assms by (simp add: PAGE_SIZE_def)
  have step: "fetch_loop e l False 100 acc s w' =
     fetch_loop e l False 100 (acc @ page_at e s) (s + 20) (emit (EvSearch s) w')"
    if "length acc < 100" for acc s w'
    using fetch_loop_full_page [OF that, of e s l False w'] assms
    by (simp add: PAGE_SIZE_def)
  show ?thesis
    unfolding fetch_activities_def Let_def
    by (simp add: step len fetch_loop_ceiling del: emit_fields)
qed

lemma newer_than_keeps_all:
  assumes "list_all (\<lambda>a. \<exists>t. start_time e a = Inr t \<and> dt_gt t d = Inr True) page"
  shows "newer_than e d page = Inr page"
  using assms by (induction page) auto

text \<open>
  C6. \<open>fetch_activities\<close> is total: its loop is defined by a recursion that terminates
  because every page that does not end it adds at least \<open>PAGE_SIZE\<close> activities. The
  ceilings 1500 and 100 bound what is returned only when the remote service honours the
  limit of the request (a service that does not, and a fetch that returns 1501 activities,
  are shown further below). For every behaviour of the
  remote service:
  \<^item> an initial fetch requests at most 75 pages and an incremental one at most 5;
  \<^item> when no page holds more than the \<open>PAGE_SIZE\<close> activities that the request asks for
    as its limit, an initial fetch returns at most 1500 activities and any other at most
    100, and so does the fetch of a sync run, by the absence or presence of a watermark;
  \<^item> when every page is full and the filter keeps all of it, a fetch with ceiling 100
    requests exactly the five pages at offsets 0, 20, 40, 60 and 80 and returns their
    100 activities.
\<close>

theorem fetch_is_bounded:
  "length (added w (snd (fetch_activities e l i w))) \<le> (if i then 75 else 5)
   \<and> ((\<forall>s. length (page_at e s) \<le> PAGE_SIZE) \<longrightarrow>
         length (fst (fetch_activities e l i w)) \<le> (if i then 1500 else 100)
       \<and> length (fst (fetched e w))
           \<le> (if truthy_str (kv (snd (authenticate_garmin e w)) ''lastSyncTime'')
               then 100 else 1500))
   \<and> ((\<forall>s. length (page_at e s) = PAGE_SIZE
             \<and> filter_activities e l False (page_at e s) = Inr (page_at e s)) \<longrightarrow>
         fetch_activities e l False w =
           (page_at e 0 @ page_at e 20 @ page_at e 40 @ page_at e 60 @ page_at e 80,
            emit (EvSearch 80) (emit (EvSearch 60) (emit (EvSearch 40) (emit (EvSearch 20)
              (emit (EvSearch 0) w)))))
       \<and> length (fst (fetch_activities e l False w)) = 100
       \<and> added w (snd (fetch_activities e l False w))
           = [EvSearch 0, EvSearch 20, EvSearch 40, EvSearch 60, EvSearch 80])"
proof (intro conjI impI)
  obtain evs where t: "trace (snd (fetch_activities e l i w)) = trace w @ evs"
    and n: "length evs * 20 \<le> (if i then 1500 else 100) + 19"
    using fetch_loop_request_count [of e l i "if i then 1500 else 100" "[]" 0 w]
    unfolding fetch_activities_def Let_def by auto
  from n have "length evs \<le> (if i then 75 else 5)"
    by (simp split: if_splits)
  with t show "length (added w (snd (fetch_activities e l i w))) \<le> (if i then 75 else 5)"
    by (simp add: added_def)
next
  assume p: "\<forall>s. length (page_at e s) \<le> PAGE_SIZE"
  have b: "length (fst (fetch_activities e l' i' w')) \<le> (if i' then 1500 else 100)"
    for l' i' w'
    unfolding fetch_activities_def Let_def
    using p by (intro fetch_loop_bound) (simp_all add: PAGE_SIZE_def)
  show "length (fst (fetch_activities e l i w)) \<le> (if i then 1500 else 100)"
    by (rule b)
  show "length (fst (fetched e w))
           \<le> (if truthy_str (kv (snd (authenticate_garmin e w)) ''lastSyncTime'')
               then 100 else 1500)"
    using b [of "kv (snd (authenticate_garmin e w)) ''lastSyncTime''"
        "\<not> truthy_str (kv (snd (authenticate_garmin e w)) ''lastSyncTime'')"
        "snd (authenticate_garmin e w)"]
    by (cases "truthy_str (kv (snd (authenticate_garmin e w)) ''lastSyncTime'')")
       (simp_all add: fetched_def Let_def)
next
  assume f: "\<forall>s. length (page_at e s) = PAGE_SIZE
             \<and> filter_activities e l False (page_at e s) = Inr (page_at e s)"
  show r: "fetch_activities e l False w =
           (page_at e 0 @ page_at e 20 @ page_at e 40 @ page_at e 60 @ page_at e 80,
            emit (EvSearch 80) (emit (EvSearch 60) (emit (EvSearch 40) (emit (EvSearch 20)
              (emit (EvSearch 0) w)))))"
    using f by (rule fetch_five_full_pages)
  from f show "length (fst (fetch_activities e l False w)) = 100"
    by (simp add: r PAGE_SIZE_def)
  show "added w (snd (fetch_activities e l False w))
           = [EvSearch 0, EvSearch 20, EvSearch 40, EvSearch 60, EvSearch 80]"
    by (simp add: r added_def)
qed

theorem fetch_is_bounded_witness:
  "(\<forall>s. length (page_at full_pages_env s) = PAGE_SIZE
        \<and> filter_activities full_pages_env (Some ''2024-05-30T00:00:00'') False
            (page_at full_pages_env s) = Inr (page_at full_pages_env s))
   \<and> (\<forall>s. length (page_at full_pages_env s) \<le> PAGE_SIZE)
   \<and> length (fst (fetch_activities full_pages_env (Some ''2024-05-30T00:00:00'') False
         synced_world)) = 100
   \<and> added synced_world (snd (fetch_activities full_pages_env (Some ''2024-05-30T00:00:00'')
         False synced_world))
       = [EvSearch 0, EvSearch 20, EvSearch 40, EvSearch 60, EvSearch 80]
   \<and> length (fst (fetch_activities full_pages_env None True empty_world)) \<le> 1500
   \<and> length (added empty_world (snd (fetch_activities full_pages_env None True empty_world)))
       \<le> 75"
proof -
  have pg: "page_at full_pages_env s = map (\<lambda>k. PDict (late_run (int (s + k)))) [0..<20]" for s
    by (simp add: page_at_def response_entries_def full_pages_env_def)
  have len: "length (page_at full_pages_env s) = PAGE_SIZE" for s
    by (simp add: pg PAGE_SIZE_def)
  have st: "start_time full_pages_env (PDict (late_run j)) = Inr (Naive 3018)" for j
    by (simp add: start_time_def late_run_def dict_item_def parse_time_def replace_Z_def
        full_pages_env_def incremental_env_def quiet_env_def example_fromisoformat_def)
  have wm: "parse_time full_pages_env ''2024-05-30T00:00:00'' = Inr (Naive 3000)"
    by (simp add: parse_time_def replace_Z_def full_pages_env_def incremental_env_def
        quiet_env_def example_fromisoformat_def)
  have "newer_than full_pages_env (Naive 3000) (page_at full_pages_env s)
      = Inr (page_at full_pages_env s)" for s
    by (rule newer_than_keeps_all) (simp add: pg list_all_iff st)
  then have fl: "filter_activities full_pages_env (Some ''2024-05-30T00:00:00'') False
            (page_at full_pages_env s) = Inr (page_at full_pages_env s)" for s
    by (simp add: filter_activities_def wm)
  have h1: "\<forall>s. length (page_at full_pages_env s) = PAGE_SIZE
        \<and> filter_activities full_pages_env (Some ''2024-05-30T00:00:00'') False
            (page_at full_pages_env s) = Inr (page_at full_pages_env s)"
    using len fl by blast
  have h2: "\<forall>s. length (page_at full_pages_env s) \<le> PAGE_SIZE"
    using len by simp
  note t1 = fetch_is_bounded [of synced_world full_pages_env "Some ''2024-05-30T00:00:00''" False]
  note t2 = fetch_is_bounded [of empty_world full_pages_env None True]
  from t1 h1 have a: "length (fst (fetch_activities full_pages_env
      (Some ''2024-05-30T00:00:00'') False synced_world)) = 100"
    by blast
  from t1 h1 have b: "added synced_world (snd (fetch_activities full_pages_env
      (Some ''2024-05-30T00:00:00'') False synced_world))
       = [EvSearch 0, EvSearch 20, EvSearch 40, EvSearch 60, EvSearch 80]"
    by blast
  from t2 h2 have c: "length (fst (fetch_activities full_pages_env None True empty_world))
      \<le> 1500"
    by simp
  from t2 have d: "length (added empty_world
      (snd (fetch_activities full_pages_env None True empty_world))) \<le> 75"
    by simp
  show ?thesis
    by (intro conjI h1 h2 a b c d)
qed

text \<open>
  The ceilings do not hold for every sequence of remote pages. A service that answers
  each request with 1501 runs, all started after the watermark, makes the initial fetch
  and the incremental one return 1501 activities after one request: the loop tests the
  ceiling before a page is added, never after.
\<close>

theorem fetch_exceeds_ceiling_on_oversized_page:
  "length (fst (fetch_activities oversized_env None True empty_world)) = 1501
   \<and> added empty_world (snd (fetch_activities oversized_env None True empty_world))
       = [EvSearch 0]
   \<and> length (fst (fetch_activities oversized_env (Some ''2024-05-30T00:00:00'') False
         synced_world)) = 1501
   \<and> added synced_world (snd (fetch_activities oversized_env (Some ''2024-05-30T00:00:00'')
         False synced_world)) = [EvSearch 0]"
proof -
  define page where "page = replicate 1501 (PDict (late_run 7))"
  have len: "length page = 1501" and ne: "page \<noteq> []"
    by (simp_all add: page_def)
  have s: "search oversized_env start = Inr (PList page)" for start
    by (simp add: oversized_env_def page_def)
  have r: "response_entries (PList page) = Inr page"
    using ne by (simp add: response_entries_def)
  have st: "start_time oversized_env (PDict (late_run 7)) = Inr (Naive 3018)"
    by (simp add: start_time_def late_run_def dict_item_def parse_time_def replace_Z_def
        oversized_env_def incremental_env_def quiet_env_def example_fromisoformat_def)
  have wm: "parse_time oversized_env ''2024-05-30T00:00:00'' = Inr (Naive 3000)"
    by (simp add: parse_time_def replace_Z_def oversized_env_def incremental_env_def
        quiet_env_def example_fromisoformat_def)
  have "newer_than oversized_env (Naive 3000) page = Inr page"
    by (rule newer_than_keeps_all) (simp add: page_def list_all_iff st)
  then have f: "filter_activities oversized_env None True page = Inr page"
      "filter_activities oversized_env (Some ''2024-05-30T00:00:00'') False page = Inr page"
    by (simp_all add: filter_activities_def wm)
  have one: "fetch_loop oversized_env l i m [] 0 w = (page, emit (EvSearch 0) w)"
    if "0 < m" "m \<le> 1501" "filter_activities oversized_env l i page = Inr page"
    for l i m w
  proof -
    from that(2) have "fetch_loop oversized_env l i m ([] @ page) (0 + PAGE_SIZE)
        (emit (EvSearch 0) w) = (page, emit (EvSearch 0) w)"
      by (intro fetch_loop_ceiling [THEN trans]) (simp_all add: len)
    with that(1) show ?thesis
      by (subst fetch_loop.simps) (simp add: s r that(3) len PAGE_SIZE_def del: emit_fields)
  qed
  have a: "fetch_activities oversized_env None True empty_world
      = (page, emit (EvSearch 0) empty_world)"
    by (simp add: fetch_activities_def one f)
  have b: "fetch_activities oversized_env (Some ''2024-05-30T00:00:00'') False synced_world
      = (page, emit (EvSearch 0) synced_world)"
    by (simp add: fetch_activities_def one f)
  show ?thesis
    by (simp add: a b len added_def)
qed

end
